theory Spec2Isabelle
  imports Complex_Main
begin

section \<open>The charge/discharge cycle controller of \<^verbatim>\<open>measure_scripts/charge_hybrid.py\<close>\<close>

text \<open>
  The script is a single control routine: an optional conditioning measurement, a
  bounded loop of hybrid measurements with four stop checks after every cycle, and an
  optional potentiostatic voltage finish. The measurement engines, the instrument and
  the clock are outside the script. The model records every call the script makes to
  them as an event of a trace, in program order, and takes what they give back (the
  sequencer summary, the state of the instrument session, the clock reading) from an
  environment record.
\<close>

subsection \<open>Python floats\<close>

text \<open>
  A float is a finite number, an infinity or NaN. Rounding and the sign of zero play no
  part in what the script computes: it compares floats, subtracts two clock readings,
  takes absolute values and multiplies by the sign \<open>-1\<close>, \<open>0\<close> or \<open>1\<close>. The
  arguments that the script multiplies by the sign or hands to \<open>time.sleep\<close>, and the
  end voltage that it multiplies by the sign, are of type \<open>pyfloat\<close>: there an infinity
  or NaN gives what no number gives (\<open>inf * 0\<close> is NaN, and every comparison with NaN is
  false). The other floats are only compared or subtracted and are kept as reals: what
  such a comparison gives with an infinity or NaN on one side it also gives with some
  number there.
\<close>

datatype pyfloat = Finite real | PosInf | NegInf | NaN

fun is_finite :: "pyfloat \<Rightarrow> bool" where
  "is_finite (Finite x) = True"
| "is_finite x = False"

text \<open>\<open>x <= y\<close> on floats: false as soon as one side is NaN.\<close>

fun py_le :: "pyfloat \<Rightarrow> pyfloat \<Rightarrow> bool" where
  "py_le NaN y = False"
| "py_le x NaN = False"
| "py_le NegInf y = True"
| "py_le x PosInf = True"
| "py_le (Finite x) (Finite y) = (x \<le> y)"
| "py_le x y = False"

text \<open>\<open>x < y\<close> on floats.\<close>

fun py_lt :: "pyfloat \<Rightarrow> pyfloat \<Rightarrow> bool" where
  "py_lt NaN y = False"
| "py_lt x NaN = False"
| "py_lt (Finite x) (Finite y) = (x < y)"
| "py_lt PosInf y = False"
| "py_lt x NegInf = False"
| "py_lt x y = True"

text \<open>\<open>abs(x)\<close> and \<open>-x\<close>.\<close>

fun py_abs :: "pyfloat \<Rightarrow> pyfloat" where
  "py_abs (Finite x) = Finite \<bar>x\<bar>"
| "py_abs PosInf = PosInf"
| "py_abs NegInf = PosInf"
| "py_abs NaN = NaN"

fun py_neg :: "pyfloat \<Rightarrow> pyfloat" where
  "py_neg (Finite x) = Finite (- x)"
| "py_neg PosInf = NegInf"
| "py_neg NegInf = PosInf"
| "py_neg NaN = NaN"

text \<open>
  \<open>x * s\<close> for a finite factor \<open>s\<close> (the script multiplies by the sign only): an infinity
  times zero is NaN, and keeps or changes its sign with the sign of \<open>s\<close> otherwise.
\<close>

fun py_mul :: "pyfloat \<Rightarrow> real \<Rightarrow> pyfloat" where
  "py_mul (Finite x) s = Finite (x * s)"
| "py_mul PosInf s = (if s = 0 then NaN else if 0 < s then PosInf else NegInf)"
| "py_mul NegInf s = (if s = 0 then NaN else if 0 < s then NegInf else PosInf)"
| "py_mul NaN s = NaN"

text \<open>
  \<open>time.sleep(x)\<close>: the interpreter converts the float to its clock type and then
  refuses a negative length. NaN raises \<open>ValueError\<close>, a length beyond what the clock
  type holds (\<open>limit\<close> seconds, fixed by the interpreter and the platform; an infinity is
  always beyond it) raises \<open>OverflowError\<close>, a negative length raises \<open>ValueError\<close>.
  \<open>None\<close> is the call that returns.
\<close>

datatype error = ValueError | OverflowError

fun py_sleep :: "real \<Rightarrow> pyfloat \<Rightarrow> error option" where
  "py_sleep limit NaN = Some ValueError"
| "py_sleep limit PosInf = Some OverflowError"
| "py_sleep limit NegInf = Some OverflowError"
| "py_sleep limit (Finite x) =
     (if limit < \<bar>x\<bar> then Some OverflowError
      else if x < 0 then Some ValueError
      else None)"

subsection \<open>Run configuration (the parsed arguments)\<close>

record args =
  exp_notes :: string
  hybrid_i_init :: real
  hybrid_rest_time :: real
  data_path :: string
  file_suffix :: string
  kst_path :: "string option"
  condition_time :: real
  condition_t_sample :: real
  max_repeats :: int
  duration :: real
  stop_v_min :: real
  stop_v_max :: real
  voltage_finish :: bool
  finish_v :: pyfloat
  finish_i_thresh :: pyfloat
  finish_i_max :: pyfloat
  finish_t_sample :: real
  finish_duration :: real
  finish_rest_time :: pyfloat

subsection \<open>The collaborators' objects\<close>

text \<open>The summary attributes of the sequencer that the script reads (\<open>seq.meas_v_*\<close>).\<close>

record sequencer =
  meas_v_min :: real
  meas_v_max :: real
  meas_v_end :: pyfloat

text \<open>The instrument session: what \<open>TestIsOpen\<close>, \<open>SetCell\<close> and \<open>Close\<close> read and write.\<close>

record pstat =
  is_open :: bool
  cell_on :: bool

text \<open>
  What the outside world gives back during one run. \<open>hybrid_seq n\<close> and
  \<open>hybrid_pstat n\<close> are the sequencer summary and the session as \<open>rf.run_hybrid\<close>
  leaves them in cycle \<open>n\<close>; \<open>hybrid_clock n\<close> is the reading of \<open>time.time()\<close> taken
  after that call (line 141); \<open>clock0\<close> is the reading at line 47; \<open>sleep_max\<close> is
  the longest sleep, in seconds, that the interpreter's clock type holds.
\<close>

record env =
  clock0 :: real
  seq0 :: sequencer
  pstat0 :: pstat
  chrono_pstat :: pstat
  hybrid_seq :: "int \<Rightarrow> sequencer"
  hybrid_pstat :: "int \<Rightarrow> pstat"
  hybrid_clock :: "int \<Rightarrow> real"
  pstatic_pstat :: pstat
  sleep_max :: real

subsection \<open>Events\<close>

text \<open>The texts printed by the script, with the values they are formatted from.\<close>

datatype message =
    MsgConditioning real real
  | MsgBeginCycle int
  | MsgStopLow real real
  | MsgStopHigh real real
  | MsgStopFinish pyfloat pyfloat
  | MsgStopDuration real real
  | MsgRest real
  | MsgFinishRest pyfloat
  | MsgCutoffs pyfloat pyfloat

text \<open>
  The output identifier of a cycle: \<open>Plain s\<close> is \<open>args.file_suffix\<close> itself and
  \<open>Cycle s n\<close> is \<open>args.file_suffix + f"_Cycle{n}"\<close>.
\<close>

datatype suffix = Plain string | Cycle string int

text \<open>\<open>os.path.join(d, f)\<close> is kept as the pair of its arguments.\<close>

type_synonym path = "string \<times> string"

text \<open>
  The conditioning measurement as \<open>dt_chrono\<close> is configured when it runs: the arguments
  of \<open>configure_mstep_signal\<close> (0, the initial current, 1, the conditioning time, the
  sample interval, one step), the \<open>leave_cell_on\<close> attribute, the arguments of
  \<open>configure_decimation\<close> after \<open>"write"\<close>, and the arguments of \<open>run\<close>.
\<close>

record chrono_job =
  chrono_s_init :: real
  chrono_s_step :: real
  chrono_t_init :: real
  chrono_t_step :: real
  chrono_t_sample :: real
  chrono_n_steps :: nat
  chrono_leave_cell_on :: bool
  chrono_decimation :: "nat \<times> nat \<times> nat \<times> nat"
  chrono_result_file :: path
  chrono_kst_file :: "path option"
  chrono_decimate :: bool

text \<open>
  One call of \<open>rf.run_hybrid\<close>. \<open>call_index\<close> is the value of the loop variable \<open>n\<close> at
  the call; it is not an argument of the call and is kept to name the iteration.
\<close>

record hybrid_call =
  call_index :: int
  call_suffix :: suffix
  call_show_plot :: bool
  call_start_with_cell_off :: bool
  call_leave_cell_on :: bool

text \<open>The arguments of \<open>dt_pstatic.run\<close>.\<close>

record pstatic_job =
  pstatic_v :: pyfloat
  pstatic_duration :: real
  pstatic_t_sample :: real
  pstatic_i_min :: pyfloat
  pstatic_i_max :: pyfloat
  pstatic_result_file :: path
  pstatic_kst_file :: "path option"

datatype event =
    Print message
  | ChronoRun chrono_job
  | HybridRun hybrid_call
  | SetCellOff
  | Close
  | Sleep pyfloat
  | PstaticRun pstatic_job

subsection \<open>Controller state\<close>

text \<open>
  The variables of the script that change during a run, the two collaborator objects,
  and the trace. \<open>start_with_cell_off\<close>, \<open>leave_cell_on\<close> and \<open>stop\<close> are unbound in
  Python until their first assignment and are never read before it; the initial state
  holds \<open>False\<close> for them. \<open>raised\<close> is the exception that has ended the run, if one
  has: the trace then holds what the script did before it.
\<close>

record ctrl =
  start_with_cell_off :: bool
  leave_cell_on :: bool
  stop :: bool
  seq :: sequencer
  pstat :: pstat
  trace :: "event list"
  raised :: "error option"

definition init_ctrl :: "env \<Rightarrow> ctrl" where
  "init_ctrl e =
     \<lparr>start_with_cell_off = False, leave_cell_on = False, stop = False,
      seq = seq0 e, pstat = pstat0 e, trace = [], raised = None\<rparr>"

definition emit :: "event \<Rightarrow> ctrl \<Rightarrow> ctrl" where
  "emit ev s = s\<lparr>trace := trace s @ [ev]\<rparr>"

text \<open>Line 44: \<open>i_sign = np.sign(args.hybrid_i_init)\<close>.\<close>

definition i_sign :: "args \<Rightarrow> real" where
  "i_sign a = sgn (hybrid_i_init a)"

text \<open>Lines 75-78 and 177-180.\<close>

definition kst_file :: "args \<Rightarrow> path option" where
  "kst_file a = (case kst_path a of Some p \<Rightarrow> Some (p, ''Kst_IVT.DTA'') | None \<Rightarrow> None)"

subsection \<open>Conditioning (lines 50-82)\<close>

definition condition :: "args \<Rightarrow> env \<Rightarrow> ctrl \<Rightarrow> ctrl" where
  "condition a e s =
     (if condition_time a > 0 then
        let s = s\<lparr>start_with_cell_off := False\<rparr>;
            s = emit (Print (MsgConditioning (hybrid_i_init a) (condition_time a))) s;
            job = \<lparr>chrono_s_init = 0, chrono_s_step = hybrid_i_init a, chrono_t_init = 1,
                   chrono_t_step = condition_time a,
                   chrono_t_sample = condition_t_sample a, chrono_n_steps = 1,
                   chrono_leave_cell_on = True, chrono_decimation = (20, 10, 2, 1),
                   chrono_result_file =
                     (data_path a, ''Conditioning_'' @ file_suffix a @ ''.DTA''),
                   chrono_kst_file = kst_file a, chrono_decimate = True\<rparr>
        in (emit (ChronoRun job) s)\<lparr>pstat := chrono_pstat e\<rparr>
      else s\<lparr>start_with_cell_off := True\<rparr>)"

subsection \<open>One cycle (lines 87-149)\<close>

text \<open>Lines 89-110: the identifier, the two power directives, the call.\<close>

definition run_hybrid :: "args \<Rightarrow> env \<Rightarrow> int \<Rightarrow> ctrl \<Rightarrow> ctrl" where
  "run_hybrid a e n s =
     (let sfx = (if max_repeats a > 1 then Cycle (file_suffix a) n
                 else Plain (file_suffix a));
          s = (if n > 0 then s\<lparr>start_with_cell_off := False\<rparr> else s);
          s = (if n = max_repeats a - 1 then s\<lparr>leave_cell_on := False\<rparr> else s);
          s = emit (HybridRun \<lparr>call_index = n, call_suffix = sfx, call_show_plot = False,
                      call_start_with_cell_off = start_with_cell_off s,
                      call_leave_cell_on = leave_cell_on s\<rparr>) s
      in s\<lparr>seq := hybrid_seq e n, pstat := hybrid_pstat e n\<rparr>)"

text \<open>Lines 114-120.\<close>

definition check_v_min :: "args \<Rightarrow> ctrl \<Rightarrow> ctrl" where
  "check_v_min a s =
     (if meas_v_min (seq s) \<le> stop_v_min a
      then (emit (Print (MsgStopLow (meas_v_min (seq s)) (stop_v_min a))) s)\<lparr>stop := True\<rparr>
      else s)"

text \<open>Lines 122-128.\<close>

definition check_v_max :: "args \<Rightarrow> ctrl \<Rightarrow> ctrl" where
  "check_v_max a s =
     (if meas_v_max (seq s) \<ge> stop_v_max a
      then (emit (Print (MsgStopHigh (meas_v_max (seq s)) (stop_v_max a))) s)\<lparr>stop := True\<rparr>
      else s)"

text \<open>
  Lines 131-138; \<open>seq.meas_v_end * i_sign >= args.finish_v * i_sign\<close> is the comparison
  \<open>py_le\<close> with the sides exchanged.
\<close>

definition check_finish :: "args \<Rightarrow> ctrl \<Rightarrow> ctrl" where
  "check_finish a s =
     (if voltage_finish a \<and>
         py_le (py_mul (finish_v a) (i_sign a)) (py_mul (meas_v_end (seq s)) (i_sign a))
      then (emit (Print (MsgStopFinish (meas_v_end (seq s)) (finish_v a))) s)\<lparr>stop := True\<rparr>
      else s)"

text \<open>Lines 141-149; \<open>now\<close> is the reading of \<open>time.time()\<close> at line 141.\<close>

definition check_duration :: "args \<Rightarrow> real \<Rightarrow> real \<Rightarrow> ctrl \<Rightarrow> ctrl" where
  "check_duration a start_time now s =
     (let elapsed = now - start_time
      in if elapsed \<ge> duration a
         then (emit (Print (MsgStopDuration elapsed (duration a))) s)\<lparr>stop := True\<rparr>
         else s)"

definition cycle_body :: "args \<Rightarrow> env \<Rightarrow> int \<Rightarrow> ctrl \<Rightarrow> ctrl" where
  "cycle_body a e n s =
     (let s = emit (Print (MsgBeginCycle n)) s;
          s = run_hybrid a e n s;
          s = s\<lparr>stop := False\<rparr>;
          s = check_v_min a s;
          s = check_v_max a s;
          s = check_finish a s;
          s = check_duration a (clock0 e) (hybrid_clock e n) s
      in s)"

subsection \<open>The stop branch and the loop (lines 86, 151-160)\<close>

text \<open>Lines 153-155.\<close>

definition shut_down :: "ctrl \<Rightarrow> ctrl" where
  "shut_down s =
     (if is_open (pstat s) then
        let s = (emit SetCellOff s)\<lparr>pstat := (pstat s)\<lparr>cell_on := False\<rparr>\<rparr>;
            s = (emit Close s)\<lparr>pstat := (pstat s)\<lparr>is_open := False\<rparr>\<rparr>
        in s
      else s)"

text \<open>
  The loop over the values of \<open>range(args.max_repeats)\<close>; \<open>break\<close> is the equation's
  return without the recursive call.
\<close>

fun cycles :: "args \<Rightarrow> env \<Rightarrow> int list \<Rightarrow> ctrl \<Rightarrow> ctrl" where
  "cycles a e [] s = s"
| "cycles a e (n # ns) s =
     (let s = cycle_body a e n s
      in if stop s then shut_down s
         else cycles a e ns (emit (Print (MsgRest (hybrid_rest_time a))) s))"

text \<open>\<open>range(N)\<close> for a Python integer: empty when \<open>N \<le> 0\<close>.\<close>

definition range_py :: "int \<Rightarrow> int list" where
  "range_py N = [0..N - 1]"

subsection \<open>Voltage finish (lines 163-203)\<close>

text \<open>Lines 183-188.\<close>

definition finish_cutoffs :: "args \<Rightarrow> pyfloat \<times> pyfloat" where
  "finish_cutoffs a =
     (if i_sign a > 0 then (py_abs (finish_i_thresh a), py_abs (finish_i_max a))
      else (py_mul (py_abs (finish_i_max a)) (i_sign a),
            py_mul (py_abs (finish_i_thresh a)) (i_sign a)))"

text \<open>
  Lines 163-203. The rest is a call of \<open>time.sleep\<close> with the configured rest time; when
  it raises, the script ends there, after the message printed at line 164 and before
  the cutoffs are computed.
\<close>

definition finish_stage :: "args \<Rightarrow> env \<Rightarrow> ctrl \<Rightarrow> ctrl" where
  "finish_stage a e s =
     (if voltage_finish a then
        let s = emit (Print (MsgFinishRest (finish_rest_time a))) s
        in case py_sleep (sleep_max e) (finish_rest_time a) of
             Some err \<Rightarrow> s\<lparr>raised := Some err\<rparr>
           | None \<Rightarrow>
               let s = emit (Sleep (finish_rest_time a)) s;
                   (i_min, i_max) = finish_cutoffs a;
                   s = emit (Print (MsgCutoffs i_min i_max)) s;
                   job = \<lparr>pstatic_v = finish_v a, pstatic_duration = finish_duration a,
                          pstatic_t_sample = finish_t_sample a,
                          pstatic_i_min = i_min, pstatic_i_max = i_max,
                          pstatic_result_file =
                            (data_path a, ''PSTATIC-FINISH_'' @ file_suffix a @ ''.DTA''),
                          pstatic_kst_file = kst_file a\<rparr>
               in (emit (PstaticRun job) s)\<lparr>pstat := pstatic_pstat e\<rparr>
      else s)"

subsection \<open>The whole run\<close>

text \<open>The state on entry to the loop: after conditioning and line 85.\<close>

definition loop_entry :: "args \<Rightarrow> env \<Rightarrow> ctrl" where
  "loop_entry a e = (condition a e (init_ctrl e))\<lparr>leave_cell_on := True\<rparr>"

text \<open>The state when the loop is left, by \<open>break\<close> or by exhaustion.\<close>

definition cycling :: "args \<Rightarrow> env \<Rightarrow> ctrl" where
  "cycling a e = cycles a e (range_py (max_repeats a)) (loop_entry a e)"

definition main :: "args \<Rightarrow> env \<Rightarrow> ctrl" where
  "main a e = finish_stage a e (cycling a e)"

subsection \<open>Reading a trace\<close>

fun hybrid_calls :: "event list \<Rightarrow> hybrid_call list" where
  "hybrid_calls [] = []"
| "hybrid_calls (HybridRun c # evs) = c # hybrid_calls evs"
| "hybrid_calls (ev # evs) = hybrid_calls evs"

text \<open>The commands sent to the instrument session by the script itself.\<close>

fun pstat_commands :: "event list \<Rightarrow> event list" where
  "pstat_commands [] = []"
| "pstat_commands (SetCellOff # evs) = SetCellOff # pstat_commands evs"
| "pstat_commands (Close # evs) = Close # pstat_commands evs"
| "pstat_commands (ev # evs) = pstat_commands evs"

fun stop_messages :: "event list \<Rightarrow> message list" where
  "stop_messages [] = []"
| "stop_messages (Print (MsgStopLow v t) # evs) = MsgStopLow v t # stop_messages evs"
| "stop_messages (Print (MsgStopHigh v t) # evs) = MsgStopHigh v t # stop_messages evs"
| "stop_messages (Print (MsgStopFinish v t) # evs) = MsgStopFinish v t # stop_messages evs"
| "stop_messages (Print (MsgStopDuration v t) # evs) = MsgStopDuration v t # stop_messages evs"
| "stop_messages (ev # evs) = stop_messages evs"

fun pstatic_runs :: "event list \<Rightarrow> pstatic_job list" where
  "pstatic_runs [] = []"
| "pstatic_runs (PstaticRun j # evs) = j # pstatic_runs evs"
| "pstatic_runs (ev # evs) = pstatic_runs evs"

fun chrono_runs :: "event list \<Rightarrow> chrono_job list" where
  "chrono_runs [] = []"
| "chrono_runs (ChronoRun j # evs) = j # chrono_runs evs"
| "chrono_runs (ev # evs) = chrono_runs evs"

subsection \<open>The decision of a cycle\<close>

text \<open>
  The stop flag that cycle \<open>n\<close> ends with. The cycle clears the flag before the checks
  and the checks read only what the engine and the clock return in that cycle, so the
  state the cycle starts from does not matter (lemma \<open>body_stops_at\<close> below).
\<close>

definition stops_at :: "args \<Rightarrow> env \<Rightarrow> int \<Rightarrow> bool" where
  "stops_at a e n = stop (cycle_body a e n (init_ctrl e))"

text \<open>The loop values for which the body runs: up to and including the first that stops.\<close>

fun ran :: "args \<Rightarrow> env \<Rightarrow> int list \<Rightarrow> int list" where
  "ran a e [] = []"
| "ran a e (n # ns) = n # (if stops_at a e n then [] else ran a e ns)"

subsection \<open>A configuration and an environment to evaluate on\<close>

text \<open>
  The defaults of the script's own arguments, with values chosen for the arguments that
  \<open>arg_config\<close> declares; and a world in which every cycle measures voltages inside
  the default limits, takes the clock to 60 s and leaves the session open, and in which
  the longest sleep is that of a clock of 63 bits of nanoseconds.
\<close>

definition demo_args :: args where
  "demo_args =
     \<lparr>exp_notes = '''', hybrid_i_init = 0.1, hybrid_rest_time = 1, data_path = ''data'',
      file_suffix = ''cell'', kst_path = None, condition_time = 0,
      condition_t_sample = 0.001, max_repeats = 1, duration = 3600, stop_v_min = - 1,
      stop_v_max = 1, voltage_finish = False, finish_v = Finite 0,
      finish_i_thresh = Finite 0.005, finish_i_max = Finite 1, finish_t_sample = 1,
      finish_duration = 3600, finish_rest_time = Finite 2\<rparr>"

definition demo_env :: env where
  "demo_env =
     \<lparr>clock0 = 0,
      seq0 = \<lparr>meas_v_min = 0, meas_v_max = 0, meas_v_end = Finite 0\<rparr>,
      pstat0 = \<lparr>is_open = False, cell_on = False\<rparr>,
      chrono_pstat = \<lparr>is_open = True, cell_on = True\<rparr>,
      hybrid_seq = (\<lambda>n. \<lparr>meas_v_min = - 0.2, meas_v_max = 0.3, meas_v_end = Finite 0.1\<rparr>),
      hybrid_pstat = (\<lambda>n. \<lparr>is_open = True, cell_on = True\<rparr>),
      hybrid_clock = (\<lambda>n. 60),
      pstatic_pstat = \<lparr>is_open = False, cell_on = False\<rparr>,
      sleep_max = 9223372036\<rparr>"

section \<open>Properties\<close>

subsection \<open>Reading traces piecewise\<close>

lemma hybrid_calls_append: "hybrid_calls (xs @ ys) = hybrid_calls xs @ hybrid_calls ys"
  by (induction xs rule: hybrid_calls.induct) simp_all

lemma pstat_commands_append: "pstat_commands (xs @ ys) = pstat_commands xs @ pstat_commands ys"
  by (induction xs rule: pstat_commands.induct) simp_all

lemma stop_messages_append: "stop_messages (xs @ ys) = stop_messages xs @ stop_messages ys"
  by (induction xs rule: stop_messages.induct) simp_all

lemma pstatic_runs_append: "pstatic_runs (xs @ ys) = pstatic_runs xs @ pstatic_runs ys"
  by (induction xs rule: pstatic_runs.induct) simp_all

lemmas body_defs = cycle_body_def run_hybrid_def check_v_min_def check_v_max_def
  check_finish_def check_duration_def emit_def Let_def

lemma body_stop:
  "stop (cycle_body a e n s) =
     (meas_v_min (hybrid_seq e n) \<le> stop_v_min a \<or>
      stop_v_max a \<le> meas_v_max (hybrid_seq e n) \<or>
      (voltage_finish a \<and>
       py_le (py_mul (finish_v a) (i_sign a)) (py_mul (meas_v_end (hybrid_seq e n)) (i_sign a))) \<or>
      duration a \<le> hybrid_clock e n - clock0 e)"
  by (simp add: body_defs)

lemma body_stops_at: "stop (cycle_body a e n s) = stops_at a e n"
  by (simp add: stops_at_def body_stop)

lemma body_calls:
  "hybrid_calls (trace (cycle_body a e n s)) =
     hybrid_calls (trace s) @
       [\<lparr>call_index = n,
         call_suffix = (if max_repeats a > 1 then Cycle (file_suffix a) n else Plain (file_suffix a)),
         call_show_plot = False,
         call_start_with_cell_off = (start_with_cell_off s \<and> n \<le> 0),
         call_leave_cell_on = (leave_cell_on s \<and> n \<noteq> max_repeats a - 1)\<rparr>]"
  by (simp add: body_defs hybrid_calls_append)

lemma body_swco: "start_with_cell_off (cycle_body a e n s) = (start_with_cell_off s \<and> n \<le> 0)"
  by (simp add: body_defs)

lemma body_lco: "leave_cell_on (cycle_body a e n s) = (leave_cell_on s \<and> n \<noteq> max_repeats a - 1)"
  by (simp add: body_defs)

lemma body_pstat: "pstat (cycle_body a e n s) = hybrid_pstat e n"
  by (simp add: body_defs)

lemma body_commands: "pstat_commands (trace (cycle_body a e n s)) = pstat_commands (trace s)"
  by (simp add: body_defs pstat_commands_append)

lemma body_pstatic: "pstatic_runs (trace (cycle_body a e n s)) = pstatic_runs (trace s)"
  by (simp add: body_defs pstatic_runs_append)

subsection \<open>The loop\<close>

lemma ran_subset: "set (ran a e ns) \<subseteq> set ns"
  by (induction ns) auto

lemma ran_no_stop: "\<forall>n\<in>set ns. \<not> stops_at a e n \<Longrightarrow> ran a e ns = ns"
  by (induction ns) auto

lemma ran_first_stop:
  "i \<le> k \<Longrightarrow> k \<le> j \<Longrightarrow> \<forall>n. i \<le> n \<and> n < k \<longrightarrow> \<not> stops_at a e n \<Longrightarrow> stops_at a e k
   \<Longrightarrow> ran a e [i..j] = [i..k]"
proof (induction i j rule: upto.induct)
  case (1 i j)
  show ?case
  proof (cases "i = k")
    case True
    with 1 show ?thesis by (simp add: upto_rec1)
  next
    case False
    with 1 have lt: "i < k" and le: "i \<le> j" by auto
    from 1 lt have ns: "\<not> stops_at a e i" by simp
    have "ran a e [i + 1..j] = [i + 1..k]"
      using 1 lt le by (intro "1.IH") auto
    with ns lt le show ?thesis by (simp add: upto_rec1[of i])
  qed
qed

lemma shut_down_calls: "hybrid_calls (trace (shut_down s)) = hybrid_calls (trace s)"
  by (simp add: shut_down_def emit_def Let_def hybrid_calls_append)

lemma shut_down_pstatic: "pstatic_runs (trace (shut_down s)) = pstatic_runs (trace s)"
  by (simp add: shut_down_def emit_def Let_def pstatic_runs_append)

lemma shut_down_commands:
  "pstat_commands (trace (shut_down s)) =
     pstat_commands (trace s) @ (if is_open (pstat s) then [SetCellOff, Close] else [])"
  by (simp add: shut_down_def emit_def Let_def pstat_commands_append)

lemma shut_down_closed: "\<not> is_open (pstat (shut_down s))"
  by (simp add: shut_down_def emit_def Let_def)

lemma shut_down_cell: "is_open (pstat s) \<Longrightarrow> \<not> cell_on (pstat (shut_down s))"
  by (simp add: shut_down_def emit_def Let_def)

lemma shut_down_idle: "\<not> is_open (pstat s) \<Longrightarrow> shut_down s = s"
  by (simp add: shut_down_def)

lemma cycles_calls:
  "j \<le> max_repeats a - 1 \<Longrightarrow>
   hybrid_calls (trace (cycles a e [i..j] s)) =
     hybrid_calls (trace s) @
       map (\<lambda>n. \<lparr>call_index = n,
                 call_suffix = (if max_repeats a > 1 then Cycle (file_suffix a) n
                                else Plain (file_suffix a)),
                 call_show_plot = False,
                 call_start_with_cell_off = (start_with_cell_off s \<and> n \<le> 0),
                 call_leave_cell_on = (leave_cell_on s \<and> n \<noteq> max_repeats a - 1)\<rparr>)
           (ran a e [i..j])"
proof (induction i j arbitrary: s rule: upto.induct)
  case (1 i j)
  show ?case
  proof (cases "i \<le> j")
    case False
    then show ?thesis by simp
  next
    case True
    let ?b = "cycle_body a e i s"
    let ?r = "emit (Print (MsgRest (hybrid_rest_time a))) ?b"
    show ?thesis
    proof (cases "stops_at a e i")
      case True
      with \<open>i \<le> j\<close> show ?thesis
        by (simp add: upto_rec1[of i] Let_def body_stops_at shut_down_calls body_calls)
    next
      case False
      have mem: "\<And>n. n \<in> set (ran a e [i + 1..j]) \<Longrightarrow> i < n \<and> n \<le> j"
        using ran_subset[of a e "[i + 1..j]"] by auto
      have ih: "hybrid_calls (trace (cycles a e [i + 1..j] ?r)) =
          hybrid_calls (trace ?r) @
          map (\<lambda>n. \<lparr>call_index = n,
                 call_suffix = (if max_repeats a > 1 then Cycle (file_suffix a) n
                                else Plain (file_suffix a)),
                 call_show_plot = False,
                 call_start_with_cell_off = (start_with_cell_off ?r \<and> n \<le> 0),
                 call_leave_cell_on = (leave_cell_on ?r \<and> n \<noteq> max_repeats a - 1)\<rparr>)
           (ran a e [i + 1..j])"
        using "1.IH"[OF \<open>i \<le> j\<close> "1.prems"] .
      have flags: "start_with_cell_off ?r = (start_with_cell_off s \<and> i \<le> 0)"
          "leave_cell_on ?r = (leave_cell_on s \<and> i \<noteq> max_repeats a - 1)"
          "hybrid_calls (trace ?r) = hybrid_calls (trace ?b)"
        by (simp_all add: emit_def body_swco body_lco hybrid_calls_append)
      have "cycles a e [i..j] s = cycles a e [i + 1..j] ?r"
        using False \<open>i \<le> j\<close> by (simp add: upto_rec1[of i] Let_def body_stops_at)
      moreover have "ran a e [i..j] = i # ran a e [i + 1..j]"
        using False \<open>i \<le> j\<close> by (simp add: upto_rec1[of i])
      moreover have "map (\<lambda>n. \<lparr>call_index = n,
                 call_suffix = (if max_repeats a > 1 then Cycle (file_suffix a) n
                                else Plain (file_suffix a)),
                 call_show_plot = False,
                 call_start_with_cell_off = (start_with_cell_off ?r \<and> n \<le> 0),
                 call_leave_cell_on = (leave_cell_on ?r \<and> n \<noteq> max_repeats a - 1)\<rparr>)
           (ran a e [i + 1..j]) =
           map (\<lambda>n. \<lparr>call_index = n,
                 call_suffix = (if max_repeats a > 1 then Cycle (file_suffix a) n
                                else Plain (file_suffix a)),
                 call_show_plot = False,
                 call_start_with_cell_off = (start_with_cell_off s \<and> n \<le> 0),
                 call_leave_cell_on = (leave_cell_on s \<and> n \<noteq> max_repeats a - 1)\<rparr>)
           (ran a e [i + 1..j])"
      proof (rule map_cong[OF refl])
        fix n assume "n \<in> set (ran a e [i + 1..j])"
        then have "i < n" "n \<le> j" using mem by auto
        with "1.prems" show "\<lparr>call_index = n,
                 call_suffix = (if max_repeats a > 1 then Cycle (file_suffix a) n
                                else Plain (file_suffix a)),
                 call_show_plot = False,
                 call_start_with_cell_off = (start_with_cell_off ?r \<and> n \<le> 0),
                 call_leave_cell_on = (leave_cell_on ?r \<and> n \<noteq> max_repeats a - 1)\<rparr> =
              \<lparr>call_index = n,
                 call_suffix = (if max_repeats a > 1 then Cycle (file_suffix a) n
                                else Plain (file_suffix a)),
                 call_show_plot = False,
                 call_start_with_cell_off = (start_with_cell_off s \<and> n \<le> 0),
                 call_leave_cell_on = (leave_cell_on s \<and> n \<noteq> max_repeats a - 1)\<rparr>"
          unfolding flags by auto
      qed
      ultimately show ?thesis
        by (simp add: ih flags(3) body_calls)
    qed
  qed
qed

lemma cycles_append:
  "\<forall>n\<in>set xs. \<not> stops_at a e n \<Longrightarrow> cycles a e (xs @ ys) s = cycles a e ys (cycles a e xs s)"
  by (induction xs arbitrary: s) (simp_all add: Let_def body_stops_at)

lemma cycles_stop_head:
  "stops_at a e k \<Longrightarrow> cycles a e (k # ys) s = shut_down (cycle_body a e k s)"
  by (simp add: Let_def body_stops_at)

lemma cycles_first_stop:
  assumes "i \<le> k" "k \<le> j" "\<forall>n. i \<le> n \<and> n < k \<longrightarrow> \<not> stops_at a e n" "stops_at a e k"
  shows "cycles a e [i..j] s = shut_down (cycle_body a e k (cycles a e [i..k - 1] s))"
proof -
  have "[i..j] = [i..k - 1] @ k # [k + 1..j]"
    using assms(1,2) by (rule upto_split3)
  moreover have "\<forall>n\<in>set [i..k - 1]. \<not> stops_at a e n"
    using assms(3) by auto
  ultimately show ?thesis
    using assms(4) by (simp add: cycles_append cycles_stop_head del: cycles.simps)
qed

lemma cycles_commands_no_stop:
  "\<forall>n\<in>set ns. \<not> stops_at a e n \<Longrightarrow>
   pstat_commands (trace (cycles a e ns s)) = pstat_commands (trace s)"
  by (induction ns arbitrary: s)
     (simp_all add: Let_def body_stops_at emit_def pstat_commands_append body_commands)

lemma cycles_pstatic: "pstatic_runs (trace (cycles a e ns s)) = pstatic_runs (trace s)"
  by (induction ns arbitrary: s)
     (simp_all add: Let_def emit_def pstatic_runs_append body_pstatic shut_down_pstatic)

lemma finish_calls: "hybrid_calls (trace (finish_stage a e s)) = hybrid_calls (trace s)"
  by (simp add: finish_stage_def emit_def Let_def hybrid_calls_append
        split: prod.splits option.splits)

lemma finish_commands: "pstat_commands (trace (finish_stage a e s)) = pstat_commands (trace s)"
  by (simp add: finish_stage_def emit_def Let_def pstat_commands_append
        split: prod.splits option.splits)

lemma finish_stop_messages: "stop_messages (trace (finish_stage a e s)) = stop_messages (trace s)"
  by (simp add: finish_stage_def emit_def Let_def stop_messages_append
        split: prod.splits option.splits)

lemma condition_calls: "hybrid_calls (trace (condition a e s)) = hybrid_calls (trace s)"
  by (simp add: condition_def emit_def Let_def hybrid_calls_append)

lemma entry_calls: "hybrid_calls (trace (loop_entry a e)) = []"
  by (simp add: loop_entry_def condition_calls init_ctrl_def)

lemma entry_commands: "pstat_commands (trace (loop_entry a e)) = []"
  by (simp add: loop_entry_def condition_def init_ctrl_def emit_def Let_def)

lemma entry_flags:
  "start_with_cell_off (loop_entry a e) = (condition_time a \<le> 0)"
  "leave_cell_on (loop_entry a e)"
  by (auto simp add: loop_entry_def condition_def init_ctrl_def emit_def Let_def)

lemma cycling_calls:
  "hybrid_calls (trace (cycling a e)) =
     map (\<lambda>n. \<lparr>call_index = n,
               call_suffix = (if max_repeats a > 1 then Cycle (file_suffix a) n
                              else Plain (file_suffix a)),
               call_show_plot = False,
               call_start_with_cell_off = (condition_time a \<le> 0 \<and> n \<le> 0),
               call_leave_cell_on = (n \<noteq> max_repeats a - 1)\<rparr>)
         (ran a e [0..max_repeats a - 1])"
  by (simp add: cycling_def range_py_def cycles_calls entry_calls entry_flags)

lemma stops_at_iff:
  "stops_at a e n =
     (meas_v_min (hybrid_seq e n) \<le> stop_v_min a \<or>
      stop_v_max a \<le> meas_v_max (hybrid_seq e n) \<or>
      (voltage_finish a \<and>
       py_le (py_mul (finish_v a) (i_sign a)) (py_mul (meas_v_end (hybrid_seq e n)) (i_sign a))) \<or>
      duration a \<le> hybrid_clock e n - clock0 e)"
  by (simp add: stops_at_def body_stop)

lemma body_trace:
  "trace (cycle_body a e n s) =
     trace (run_hybrid a e n (emit (Print (MsgBeginCycle n)) s)) @
     map Print
       ((if meas_v_min (hybrid_seq e n) \<le> stop_v_min a
         then [MsgStopLow (meas_v_min (hybrid_seq e n)) (stop_v_min a)] else []) @
        (if stop_v_max a \<le> meas_v_max (hybrid_seq e n)
         then [MsgStopHigh (meas_v_max (hybrid_seq e n)) (stop_v_max a)] else []) @
        (if voltage_finish a \<and>
            py_le (py_mul (finish_v a) (i_sign a))
              (py_mul (meas_v_end (hybrid_seq e n)) (i_sign a))
         then [MsgStopFinish (meas_v_end (hybrid_seq e n)) (finish_v a)] else []) @
        (if duration a \<le> hybrid_clock e n - clock0 e
         then [MsgStopDuration (hybrid_clock e n - clock0 e) (duration a)] else []))"
  by (simp add: body_defs)

subsection \<open>The stop decision\<close>

text \<open>
  Claim C1. After the hybrid call of every cycle the four checks run in the order low
  voltage, high voltage, voltage finish, duration. None of them is skipped because an
  earlier one fired: the messages printed after the call are exactly those of the checks
  whose condition holds, in that order. The stop flag the cycle ends with is the
  disjunction of the four conditions, and it alone decides between the stop branch and
  the next cycle.
\<close>

theorem stop_decision:
  "stop (cycle_body a e n s) =
     (meas_v_min (hybrid_seq e n) \<le> stop_v_min a \<or>
      stop_v_max a \<le> meas_v_max (hybrid_seq e n) \<or>
      (voltage_finish a \<and>
       py_le (py_mul (finish_v a) (i_sign a)) (py_mul (meas_v_end (hybrid_seq e n)) (i_sign a))) \<or>
      duration a \<le> hybrid_clock e n - clock0 e) \<and>
   trace (cycle_body a e n s) =
     trace (run_hybrid a e n (emit (Print (MsgBeginCycle n)) s)) @
     map Print
       ((if meas_v_min (hybrid_seq e n) \<le> stop_v_min a
         then [MsgStopLow (meas_v_min (hybrid_seq e n)) (stop_v_min a)] else []) @
        (if stop_v_max a \<le> meas_v_max (hybrid_seq e n)
         then [MsgStopHigh (meas_v_max (hybrid_seq e n)) (stop_v_max a)] else []) @
        (if voltage_finish a \<and>
            py_le (py_mul (finish_v a) (i_sign a))
              (py_mul (meas_v_end (hybrid_seq e n)) (i_sign a))
         then [MsgStopFinish (meas_v_end (hybrid_seq e n)) (finish_v a)] else []) @
        (if duration a \<le> hybrid_clock e n - clock0 e
         then [MsgStopDuration (hybrid_clock e n - clock0 e) (duration a)] else [])) \<and>
   cycles a e (n # ns) s =
     (if stop (cycle_body a e n s) then shut_down (cycle_body a e n s)
      else cycles a e ns (emit (Print (MsgRest (hybrid_rest_time a))) (cycle_body a e n s)))"
proof (intro conjI)
  show "stop (cycle_body a e n s) =
     (meas_v_min (hybrid_seq e n) \<le> stop_v_min a \<or>
      stop_v_max a \<le> meas_v_max (hybrid_seq e n) \<or>
      (voltage_finish a \<and>
       py_le (py_mul (finish_v a) (i_sign a)) (py_mul (meas_v_end (hybrid_seq e n)) (i_sign a))) \<or>
      duration a \<le> hybrid_clock e n - clock0 e)"
    by (rule body_stop)
qed (simp_all add: body_trace Let_def)

theorem stop_decision_witness:
  "stop (cycle_body (demo_args\<lparr>stop_v_min := 0, duration := 30\<rparr>) demo_env 0
          (loop_entry demo_args demo_env)) \<and>
   stop_messages (trace (cycle_body (demo_args\<lparr>stop_v_min := 0, duration := 30\<rparr>) demo_env 0
          (loop_entry demo_args demo_env))) =
     [MsgStopLow (- 0.2) 0, MsgStopDuration 60 30]"
  using stop_decision[of "demo_args\<lparr>stop_v_min := 0, duration := 30\<rparr>" demo_env 0
          "loop_entry demo_args demo_env" "[]"]
  by (simp add: demo_args_def demo_env_def run_hybrid_def emit_def Let_def loop_entry_def
        condition_def init_ctrl_def stop_messages_append)

subsection \<open>Runs that no check stops\<close>

lemma main_calls: "hybrid_calls (trace (main a e)) = hybrid_calls (trace (cycling a e))"
  by (simp add: main_def finish_calls)

lemma map_index_calls:
  "map call_index (hybrid_calls (trace (cycling a e))) = ran a e [0..max_repeats a - 1]"
  by (simp add: cycling_calls o_def)

lemma map_lco_calls:
  "map call_leave_cell_on (hybrid_calls (trace (cycling a e))) =
     map (\<lambda>n. n \<noteq> max_repeats a - 1) (ran a e [0..max_repeats a - 1])"
  by (simp add: cycling_calls o_def)

lemma lco_pattern:
  assumes "1 \<le> N"
  shows "map (\<lambda>n. n \<noteq> N - 1) [0..N - 1] = replicate (nat (N - 1)) True @ [False]"
proof -
  have split: "[0..N - 1] = [0..N - 2] @ [N - 1]"
    using assms upto_rec2[of 0 "N - 1"] by simp
  have "map (\<lambda>n. n \<noteq> N - 1) [0..N - 2] = map (\<lambda>n. True) [0..N - 2]"
    by (rule map_cong) auto
  also have "\<dots> = replicate (nat (N - 1)) True"
    using assms by (simp add: map_replicate_const)
  finally show ?thesis
    by (simp add: split)
qed

text \<open>
  Claim C2. With \<open>max_repeats = N \<ge> 1\<close> and no cycle of the run ending with the stop
  flag set, the hybrid measurement is called exactly \<open>N\<close> times, for the loop values
  \<open>0, \<dots>, N - 1\<close> in order, with \<open>leave_cell_on\<close> true in the first \<open>N - 1\<close> calls
  and false in the last.
\<close>

theorem all_repeats_without_stop:
  assumes "1 \<le> max_repeats a"
    and "\<forall>n. 0 \<le> n \<and> n < max_repeats a \<longrightarrow> \<not> stops_at a e n"
  shows "length (hybrid_calls (trace (main a e))) = nat (max_repeats a) \<and>
    map call_index (hybrid_calls (trace (main a e))) = [0..max_repeats a - 1] \<and>
    map call_leave_cell_on (hybrid_calls (trace (main a e))) =
      replicate (nat (max_repeats a - 1)) True @ [False]"
proof -
  have "\<forall>n\<in>set [0..max_repeats a - 1]. \<not> stops_at a e n"
    using assms(2) by simp
  then have r: "ran a e [0..max_repeats a - 1] = [0..max_repeats a - 1]"
    by (rule ran_no_stop)
  have idx: "map call_index (hybrid_calls (trace (main a e))) = [0..max_repeats a - 1]"
    by (simp add: main_calls map_index_calls r)
  have "length (map call_index (hybrid_calls (trace (main a e)))) = nat (max_repeats a)"
    unfolding idx using assms(1) by simp
  then have len: "length (hybrid_calls (trace (main a e))) = nat (max_repeats a)"
    by simp
  have "map call_leave_cell_on (hybrid_calls (trace (main a e))) =
      replicate (nat (max_repeats a - 1)) True @ [False]"
    by (simp add: main_calls map_lco_calls r lco_pattern[OF assms(1)])
  with idx len show ?thesis by simp
qed

lemma demo_quiet: "\<not> stops_at (demo_args\<lparr>max_repeats := N\<rparr>) demo_env n"
  by (simp add: stops_at_iff demo_args_def demo_env_def)

theorem all_repeats_without_stop_witness:
  "(1::int) \<le> max_repeats (demo_args\<lparr>max_repeats := 3\<rparr>) \<and>
   \<not> stops_at (demo_args\<lparr>max_repeats := 3\<rparr>) demo_env 0 \<and>
   \<not> stops_at (demo_args\<lparr>max_repeats := 3\<rparr>) demo_env 1 \<and>
   \<not> stops_at (demo_args\<lparr>max_repeats := 3\<rparr>) demo_env 2 \<and>
   length (hybrid_calls (trace (main (demo_args\<lparr>max_repeats := 3\<rparr>) demo_env))) = 3 \<and>
   map call_index (hybrid_calls (trace (main (demo_args\<lparr>max_repeats := 3\<rparr>) demo_env))) =
     [0, 1, 2] \<and>
   map call_leave_cell_on (hybrid_calls (trace (main (demo_args\<lparr>max_repeats := 3\<rparr>) demo_env))) =
     [True, True, False]"
proof -
  have h1: "(1::int) \<le> max_repeats (demo_args\<lparr>max_repeats := 3\<rparr>)" by simp
  have h2: "\<forall>n. 0 \<le> n \<and> n < max_repeats (demo_args\<lparr>max_repeats := 3\<rparr>)
      \<longrightarrow> \<not> stops_at (demo_args\<lparr>max_repeats := 3\<rparr>) demo_env n"
    by (simp add: demo_quiet)
  have u: "[0..2::int] = [0, 1, 2]" by (simp add: upto_rec1)
  show ?thesis
    using all_repeats_without_stop[OF h1 h2] by (simp add: u numeral_eq_Suc demo_quiet)
qed

subsection \<open>Runs that a voltage limit stops\<close>

lemma breach_stops: 
  "meas_v_min (hybrid_seq e k) \<le> stop_v_min a \<or> stop_v_max a \<le> meas_v_max (hybrid_seq e k)
   \<Longrightarrow> stops_at a e k"
  by (auto simp add: stops_at_iff)

lemma cycling_first_stop:
  assumes "0 \<le> k" "k \<le> max_repeats a - 1"
    and "\<forall>n. 0 \<le> n \<and> n < k \<longrightarrow> \<not> stops_at a e n"
    and "stops_at a e k"
  shows "cycling a e = shut_down (cycle_body a e k (cycles a e [0..k - 1] (loop_entry a e)))"
  unfolding cycling_def range_py_def using assms by (rule cycles_first_stop)

lemma cycling_first_stop_commands:
  assumes "0 \<le> k" "k \<le> max_repeats a - 1"
    and "\<forall>n. 0 \<le> n \<and> n < k \<longrightarrow> \<not> stops_at a e n"
    and "stops_at a e k"
  shows "pstat_commands (trace (cycling a e)) =
           (if is_open (hybrid_pstat e k) then [SetCellOff, Close] else [])"
proof -
  have "\<forall>n\<in>set [0..k - 1]. \<not> stops_at a e n"
    using assms(3) by auto
  then have "pstat_commands (trace (cycles a e [0..k - 1] (loop_entry a e))) = []"
    by (simp add: cycles_commands_no_stop entry_commands)
  then show ?thesis
    by (simp add: cycling_first_stop[OF assms] shut_down_commands body_commands body_pstat)
qed

text \<open>
  Claim C3. Let no cycle before \<open>k\<close> end with the stop flag set, let the low or the
  high voltage limit be breached in cycle \<open>k\<close>, and let \<open>k < N - 1\<close> for
  \<open>N = max_repeats\<close>. Let the session be open after the call of cycle \<open>k\<close>, as the engine
  leaves it when it is called with \<open>leave_cell_on\<close> true; the calls of the cycles
  \<open>0, \<dots>, k\<close> are all made so. Then the loop is left after exactly \<open>k + 1\<close> hybrid
  calls, the script sends cell-off and then close, and nothing else, to the session,
  and the session ends closed with the cell off.
\<close>

theorem breach_ends_loop:
  assumes "0 \<le> k" "k < max_repeats a - 1"
    and "\<forall>n. 0 \<le> n \<and> n < k \<longrightarrow> \<not> stops_at a e n"
    and "meas_v_min (hybrid_seq e k) \<le> stop_v_min a \<or>
         stop_v_max a \<le> meas_v_max (hybrid_seq e k)"
    and "is_open (hybrid_pstat e k)"
  shows "length (hybrid_calls (trace (cycling a e))) = nat (k + 1) \<and>
    map call_index (hybrid_calls (trace (cycling a e))) = [0..k] \<and>
    map call_leave_cell_on (hybrid_calls (trace (cycling a e))) = replicate (nat (k + 1)) True \<and>
    pstat_commands (trace (cycling a e)) = [SetCellOff, Close] \<and>
    \<not> is_open (pstat (cycling a e)) \<and>
    \<not> cell_on (pstat (cycling a e)) \<and>
    hybrid_calls (trace (main a e)) = hybrid_calls (trace (cycling a e)) \<and>
    pstat_commands (trace (main a e)) = [SetCellOff, Close]"
proof -
  have st: "stops_at a e k" using assms(4) by (rule breach_stops)
  have le: "k \<le> max_repeats a - 1" using assms(2) by simp
  have r: "ran a e [0..max_repeats a - 1] = [0..k]"
    using assms(1) le assms(3) st by (rule ran_first_stop)
  have idx: "map call_index (hybrid_calls (trace (cycling a e))) = [0..k]"
    by (simp add: map_index_calls r)
  have "length (map call_index (hybrid_calls (trace (cycling a e)))) = nat (k + 1)"
    unfolding idx using assms(1) by simp
  then have len: "length (hybrid_calls (trace (cycling a e))) = nat (k + 1)"
    by simp
  have "map (\<lambda>n. n \<noteq> max_repeats a - 1) [0..k] = map (\<lambda>n. True) [0..k]"
    using assms(2) by (intro map_cong) auto
  also have "\<dots> = replicate (nat (k + 1)) True"
    using assms(1) by (simp add: map_replicate_const)
  finally have lco: "map call_leave_cell_on (hybrid_calls (trace (cycling a e))) =
      replicate (nat (k + 1)) True"
    by (simp add: map_lco_calls r)
  note fin = cycling_first_stop[OF assms(1) le assms(3) st]
  have cmd: "pstat_commands (trace (cycling a e)) = [SetCellOff, Close]"
    using assms(5) by (simp add: cycling_first_stop_commands[OF assms(1) le assms(3) st])
  have opn: "is_open (pstat (cycle_body a e k (cycles a e [0..k - 1] (loop_entry a e))))"
    using assms(5) by (simp add: body_pstat)
  have closed: "\<not> is_open (pstat (cycling a e))"
    by (simp add: fin shut_down_closed)
  have off: "\<not> cell_on (pstat (cycling a e))"
    unfolding fin using opn by (rule shut_down_cell)
  have m: "pstat_commands (trace (main a e)) = [SetCellOff, Close]"
    by (simp add: main_def finish_commands cmd)
  from len idx lco cmd closed off m show ?thesis
    by (simp add: main_calls)
qed

theorem breach_ends_loop_witness:
  "(0::int) \<le> 1 \<and> 1 < max_repeats (demo_args\<lparr>max_repeats := 4, stop_v_max := 0.5\<rparr>) - 1 \<and>
   \<not> stops_at (demo_args\<lparr>max_repeats := 4, stop_v_max := 0.5\<rparr>)
       (demo_env\<lparr>hybrid_seq := (\<lambda>n. \<lparr>meas_v_min = 0, meas_v_max = 0.3 * of_int (n + 1),
          meas_v_end = Finite 0\<rparr>)\<rparr>) 0 \<and>
   stop_v_max (demo_args\<lparr>max_repeats := 4, stop_v_max := 0.5\<rparr>) \<le>
     meas_v_max (hybrid_seq (demo_env\<lparr>hybrid_seq := (\<lambda>n. \<lparr>meas_v_min = 0,
          meas_v_max = 0.3 * of_int (n + 1), meas_v_end = Finite 0\<rparr>)\<rparr>) 1) \<and>
   is_open (hybrid_pstat (demo_env\<lparr>hybrid_seq := (\<lambda>n. \<lparr>meas_v_min = 0,
          meas_v_max = 0.3 * of_int (n + 1), meas_v_end = Finite 0\<rparr>)\<rparr>) 1) \<and>
   length (hybrid_calls (trace (cycling (demo_args\<lparr>max_repeats := 4, stop_v_max := 0.5\<rparr>)
       (demo_env\<lparr>hybrid_seq := (\<lambda>n. \<lparr>meas_v_min = 0, meas_v_max = 0.3 * of_int (n + 1),
          meas_v_end = Finite 0\<rparr>)\<rparr>)))) = 2 \<and>
   map call_leave_cell_on
     (hybrid_calls (trace (cycling (demo_args\<lparr>max_repeats := 4, stop_v_max := 0.5\<rparr>)
       (demo_env\<lparr>hybrid_seq := (\<lambda>n. \<lparr>meas_v_min = 0, meas_v_max = 0.3 * of_int (n + 1),
          meas_v_end = Finite 0\<rparr>)\<rparr>)))) = [True, True] \<and>
   pstat_commands (trace (cycling (demo_args\<lparr>max_repeats := 4, stop_v_max := 0.5\<rparr>)
       (demo_env\<lparr>hybrid_seq := (\<lambda>n. \<lparr>meas_v_min = 0, meas_v_max = 0.3 * of_int (n + 1),
          meas_v_end = Finite 0\<rparr>)\<rparr>))) = [SetCellOff, Close] \<and>
   \<not> is_open (pstat (cycling (demo_args\<lparr>max_repeats := 4, stop_v_max := 0.5\<rparr>)
       (demo_env\<lparr>hybrid_seq := (\<lambda>n. \<lparr>meas_v_min = 0, meas_v_max = 0.3 * of_int (n + 1),
          meas_v_end = Finite 0\<rparr>)\<rparr>))) \<and>
   \<not> cell_on (pstat (cycling (demo_args\<lparr>max_repeats := 4, stop_v_max := 0.5\<rparr>)
       (demo_env\<lparr>hybrid_seq := (\<lambda>n. \<lparr>meas_v_min = 0, meas_v_max = 0.3 * of_int (n + 1),
          meas_v_end = Finite 0\<rparr>)\<rparr>)))"
proof -
  let ?a = "demo_args\<lparr>max_repeats := 4, stop_v_max := 0.5\<rparr>"
  let ?e = "demo_env\<lparr>hybrid_seq := (\<lambda>n. \<lparr>meas_v_min = 0, meas_v_max = 0.3 * of_int (n + 1),
          meas_v_end = Finite 0\<rparr>)\<rparr>"
  have q0: "\<not> stops_at ?a ?e 0"
    by (simp add: stops_at_iff demo_args_def demo_env_def i_sign_def)
  have h1: "(0::int) \<le> 1" by simp
  have h2: "1 < max_repeats ?a - 1" by simp
  have h3: "\<forall>n. 0 \<le> n \<and> n < 1 \<longrightarrow> \<not> stops_at ?a ?e n"
  proof (intro allI impI)
    fix n :: int assume "0 \<le> n \<and> n < 1"
    then have "n = 0" by simp
    with q0 show "\<not> stops_at ?a ?e n" by simp
  qed
  have h4: "meas_v_min (hybrid_seq ?e 1) \<le> stop_v_min ?a \<or>
         stop_v_max ?a \<le> meas_v_max (hybrid_seq ?e 1)"
    by (simp add: demo_args_def demo_env_def)
  have h5: "is_open (hybrid_pstat ?e 1)" by (simp add: demo_env_def)
  note B = breach_ends_loop[OF h1 h2 h3 h4 h5]
  have 1: "length (hybrid_calls (trace (cycling ?a ?e))) = 2"
    using B[THEN conjunct1] by simp
  have 2: "map call_leave_cell_on (hybrid_calls (trace (cycling ?a ?e))) = [True, True]"
    using B[THEN conjunct2, THEN conjunct2, THEN conjunct1] by (simp add: numeral_eq_Suc)
  have 3: "pstat_commands (trace (cycling ?a ?e)) = [SetCellOff, Close]"
    using B[THEN conjunct2, THEN conjunct2, THEN conjunct2, THEN conjunct1] .
  have 4: "\<not> is_open (pstat (cycling ?a ?e))"
    using B[THEN conjunct2, THEN conjunct2, THEN conjunct2, THEN conjunct2, THEN conjunct1] .
  have 5: "\<not> cell_on (pstat (cycling ?a ?e))"
    using B[THEN conjunct2, THEN conjunct2, THEN conjunct2, THEN conjunct2, THEN conjunct2,
        THEN conjunct1] .
  have 6: "stop_v_max ?a \<le> meas_v_max (hybrid_seq ?e 1)"
    by (simp add: demo_args_def demo_env_def)
  from h1 h2 q0 6 h5 1 2 3 4 5 show ?thesis by (intro conjI)
qed

subsection \<open>The current sign, the cutoff band and the single checks\<close>

lemma i_sign_cases: "i_sign a = 1 \<or> i_sign a = 0 \<or> i_sign a = - 1"
  by (simp add: i_sign_def sgn_if)

lemma i_sign_pos: "(0 < i_sign a) = (0 < hybrid_i_init a)"
  by (simp add: i_sign_def)

lemma i_sign_neg: "(i_sign a < 0) = (hybrid_i_init a < 0)"
  by (simp add: i_sign_def)

lemma py_mul_one: "py_mul x 1 = x"
  by (cases x) simp_all

lemma py_mul_minus_one: "py_mul x (- 1) = py_neg x"
  by (cases x) simp_all

lemma py_mul_zero: "py_mul x 0 = (if is_finite x then Finite 0 else NaN)"
  by (cases x) simp_all

lemma py_le_neg: "py_le (py_neg y) (py_neg x) = py_le x y"
  by (cases x; cases y) simp_all

lemma py_abs_nonneg: "x \<noteq> NaN \<Longrightarrow> py_le (Finite 0) (py_abs x)"
  by (cases x) simp_all

lemma py_abs_pos: "x \<noteq> NaN \<Longrightarrow> x \<noteq> Finite 0 \<Longrightarrow> py_lt (Finite 0) (py_abs x)"
  by (cases x) simp_all

lemma py_neg_abs_nonpos: "x \<noteq> NaN \<Longrightarrow> py_le (py_neg (py_abs x)) (Finite 0)"
  by (cases x) simp_all

lemma py_neg_abs_neg: "x \<noteq> NaN \<Longrightarrow> x \<noteq> Finite 0 \<Longrightarrow> py_lt (py_neg (py_abs x)) (Finite 0)"
  by (cases x) simp_all

lemma py_abs_neg_abs: "py_abs (py_neg (py_abs x)) = py_abs x"
  by (cases x) simp_all

text \<open>
  Claim C4. The cutoff band of the voltage finish is computed from the sign of the
  current and the two magnitudes. For a positive sign \<open>i_min = \<bar>finish_i_thresh\<bar>\<close> and
  \<open>i_max = \<bar>finish_i_max\<bar>\<close>; for a negative sign \<open>i_min = - \<bar>finish_i_max\<bar>\<close> and
  \<open>i_max = - \<bar>finish_i_thresh\<bar>\<close>, the band mirrored. This holds for every float. Both
  bounds lie on the side of the sign for a magnitude that is a number or an infinity,
  strictly so for a magnitude other than zero, and for a threshold not above the
  maximum in magnitude \<open>i_min\<close> of the negative band holds the larger magnitude. With
  sign \<open>+1\<close>, threshold 0.005 and maximum 1.0 the band is \<open>(0.005, 1.0)\<close>; with sign
  \<open>-1\<close> it is \<open>(-1.0, -0.005)\<close>.
\<close>

theorem cutoff_band:
  "(0 < i_sign a \<longrightarrow>
      finish_cutoffs a = (py_abs (finish_i_thresh a), py_abs (finish_i_max a)) \<and>
      (finish_i_thresh a \<noteq> NaN \<longrightarrow> py_le (Finite 0) (fst (finish_cutoffs a))) \<and>
      (finish_i_max a \<noteq> NaN \<longrightarrow> py_le (Finite 0) (snd (finish_cutoffs a))) \<and>
      (finish_i_thresh a \<noteq> NaN \<and> finish_i_thresh a \<noteq> Finite 0 \<longrightarrow>
         py_lt (Finite 0) (fst (finish_cutoffs a))) \<and>
      (finish_i_max a \<noteq> NaN \<and> finish_i_max a \<noteq> Finite 0 \<longrightarrow>
         py_lt (Finite 0) (snd (finish_cutoffs a)))) \<and>
   (i_sign a < 0 \<longrightarrow>
      finish_cutoffs a =
        (py_neg (py_abs (finish_i_max a)), py_neg (py_abs (finish_i_thresh a))) \<and>
      (finish_i_max a \<noteq> NaN \<longrightarrow> py_le (fst (finish_cutoffs a)) (Finite 0)) \<and>
      (finish_i_thresh a \<noteq> NaN \<longrightarrow> py_le (snd (finish_cutoffs a)) (Finite 0)) \<and>
      (finish_i_max a \<noteq> NaN \<and> finish_i_max a \<noteq> Finite 0 \<longrightarrow>
         py_lt (fst (finish_cutoffs a)) (Finite 0)) \<and>
      (finish_i_thresh a \<noteq> NaN \<and> finish_i_thresh a \<noteq> Finite 0 \<longrightarrow>
         py_lt (snd (finish_cutoffs a)) (Finite 0)) \<and>
      (py_le (py_abs (finish_i_thresh a)) (py_abs (finish_i_max a)) \<longrightarrow>
         py_le (py_abs (snd (finish_cutoffs a))) (py_abs (fst (finish_cutoffs a))))) \<and>
   (finish_i_thresh a = Finite t \<and> finish_i_max a = Finite m \<longrightarrow>
      (0 < i_sign a \<longrightarrow> finish_cutoffs a = (Finite \<bar>t\<bar>, Finite \<bar>m\<bar>)) \<and>
      (i_sign a < 0 \<longrightarrow> finish_cutoffs a = (Finite (- \<bar>m\<bar>), Finite (- \<bar>t\<bar>)))) \<and>
   (i_sign a = 1 \<and> finish_i_thresh a = Finite 0.005 \<and> finish_i_max a = Finite 1.0 \<longrightarrow>
      finish_cutoffs a = (Finite 0.005, Finite 1.0)) \<and>
   (i_sign a = - 1 \<and> finish_i_thresh a = Finite 0.005 \<and> finish_i_max a = Finite 1.0 \<longrightarrow>
      finish_cutoffs a = (Finite (- 1.0), Finite (- 0.005)))"
proof -
  have neg: "i_sign a = - 1" if "i_sign a < 0"
    using that i_sign_cases[of a] by auto
  have n: "finish_cutoffs a =
      (py_neg (py_abs (finish_i_max a)), py_neg (py_abs (finish_i_thresh a)))"
    if "i_sign a < 0"
    using that neg[OF that] by (simp add: finish_cutoffs_def py_mul_minus_one)
  have p: "finish_cutoffs a = (py_abs (finish_i_thresh a), py_abs (finish_i_max a))"
    if "0 < i_sign a"
    using that by (simp add: finish_cutoffs_def)
  show ?thesis
    by (auto simp add: n p py_abs_nonneg py_abs_pos py_neg_abs_nonpos py_neg_abs_neg
          py_abs_neg_abs)
qed

theorem cutoff_band_witness:
  "i_sign demo_args = 1 \<and> finish_cutoffs demo_args = (Finite 0.005, Finite 1.0) \<and>
   i_sign (demo_args\<lparr>hybrid_i_init := - 0.1\<rparr>) = - 1 \<and>
   finish_cutoffs (demo_args\<lparr>hybrid_i_init := - 0.1\<rparr>) = (Finite (- 1.0), Finite (- 0.005))"
proof -
  have p: "i_sign demo_args = 1" "finish_i_thresh demo_args = Finite 0.005"
    "finish_i_max demo_args = Finite 1.0"
    by (simp_all add: i_sign_def demo_args_def)
  have n: "i_sign (demo_args\<lparr>hybrid_i_init := - 0.1\<rparr>) = - 1"
    "finish_i_thresh (demo_args\<lparr>hybrid_i_init := - 0.1\<rparr>) = Finite 0.005"
    "finish_i_max (demo_args\<lparr>hybrid_i_init := - 0.1\<rparr>) = Finite 1.0"
    by (simp_all add: i_sign_def demo_args_def)
  note A = cutoff_band[of demo_args]
  note B = cutoff_band[of "demo_args\<lparr>hybrid_i_init := - 0.1\<rparr>"]
  have 1: "finish_cutoffs demo_args = (Finite 0.005, Finite 1.0)"
    using A[THEN conjunct2, THEN conjunct2, THEN conjunct2, THEN conjunct1] p by blast
  have 2: "finish_cutoffs (demo_args\<lparr>hybrid_i_init := - 0.1\<rparr>) =
      (Finite (- 1.0), Finite (- 0.005))"
    using B[THEN conjunct2, THEN conjunct2, THEN conjunct2, THEN conjunct2] n by blast
  from p(1) 1 n(1) 2 show ?thesis by (intro conjI)
qed

text \<open>
  Claim C5. The voltage-finish check fires exactly when voltage finish is enabled and
  \<open>end_voltage * sign \<ge> finish_v * sign\<close>: for sign \<open>+1\<close> when the end voltage has
  reached the finish voltage from below, for sign \<open>-1\<close> when it has reached it from
  above. With finish voltage 0.0 it fires for sign \<open>+1\<close> at end voltage 0.01, for sign
  \<open>-1\<close> at end voltage \<open>-0.01\<close>, and not for sign \<open>-1\<close> at end voltage 0.01. With
  voltage finish disabled the check does nothing.
\<close>

theorem finish_check:
  "stop (check_finish a (s\<lparr>stop := False\<rparr>)) =
     (voltage_finish a \<and>
      py_le (py_mul (finish_v a) (i_sign a)) (py_mul (meas_v_end (seq s)) (i_sign a))) \<and>
   (voltage_finish a \<and> i_sign a = 1 \<longrightarrow>
      stop (check_finish a (s\<lparr>stop := False\<rparr>)) = py_le (finish_v a) (meas_v_end (seq s))) \<and>
   (voltage_finish a \<and> i_sign a = - 1 \<longrightarrow>
      stop (check_finish a (s\<lparr>stop := False\<rparr>)) = py_le (meas_v_end (seq s)) (finish_v a)) \<and>
   (voltage_finish a \<and> i_sign a = 1 \<and> finish_v a = Finite 0.0 \<and>
      meas_v_end (seq s) = Finite 0.01 \<longrightarrow>
      stop (check_finish a (s\<lparr>stop := False\<rparr>))) \<and>
   (voltage_finish a \<and> i_sign a = - 1 \<and> finish_v a = Finite 0.0 \<and>
      meas_v_end (seq s) = Finite (- 0.01) \<longrightarrow>
      stop (check_finish a (s\<lparr>stop := False\<rparr>))) \<and>
   (voltage_finish a \<and> i_sign a = - 1 \<and> finish_v a = Finite 0.0 \<and>
      meas_v_end (seq s) = Finite 0.01 \<longrightarrow>
      \<not> stop (check_finish a (s\<lparr>stop := False\<rparr>))) \<and>
   (\<not> voltage_finish a \<longrightarrow> check_finish a s = s)"
  by (simp add: check_finish_def emit_def py_mul_one py_mul_minus_one py_le_neg)

theorem finish_check_witness:
  "stop (check_finish (demo_args\<lparr>voltage_finish := True\<rparr>)
     ((init_ctrl demo_env)\<lparr>seq := \<lparr>meas_v_min = 0, meas_v_max = 0, meas_v_end = Finite 0.01\<rparr>,
        stop := False\<rparr>)) \<and>
   stop (check_finish (demo_args\<lparr>voltage_finish := True, hybrid_i_init := - 0.1\<rparr>)
     ((init_ctrl demo_env)\<lparr>seq := \<lparr>meas_v_min = 0, meas_v_max = 0, meas_v_end = Finite (- 0.01)\<rparr>,
        stop := False\<rparr>)) \<and>
   \<not> stop (check_finish (demo_args\<lparr>voltage_finish := True, hybrid_i_init := - 0.1\<rparr>)
     ((init_ctrl demo_env)\<lparr>seq := \<lparr>meas_v_min = 0, meas_v_max = 0, meas_v_end = Finite 0.01\<rparr>,
        stop := False\<rparr>))"
  using finish_check[of "demo_args\<lparr>voltage_finish := True\<rparr>"
      "(init_ctrl demo_env)\<lparr>seq := \<lparr>meas_v_min = 0, meas_v_max = 0, meas_v_end = Finite 0.01\<rparr>\<rparr>"]
    finish_check[of "demo_args\<lparr>voltage_finish := True, hybrid_i_init := - 0.1\<rparr>"
      "(init_ctrl demo_env)\<lparr>seq := \<lparr>meas_v_min = 0, meas_v_max = 0,
         meas_v_end = Finite (- 0.01)\<rparr>\<rparr>"]
    finish_check[of "demo_args\<lparr>voltage_finish := True, hybrid_i_init := - 0.1\<rparr>"
      "(init_ctrl demo_env)\<lparr>seq := \<lparr>meas_v_min = 0, meas_v_max = 0, meas_v_end = Finite 0.01\<rparr>\<rparr>"]
  by (simp add: i_sign_def demo_args_def init_ctrl_def)

text \<open>
  Claim C8. Let the clock readings taken after the cycles not decrease. If the duration
  check fires at the boundary of cycle \<open>n\<close>, it fires at the boundary of every later
  cycle \<open>m\<close> as well: the elapsed time is at least the duration there, the check sets
  the stop flag and prints its message, and the cycle ends with the stop flag set.
\<close>

theorem duration_monotone:
  assumes "\<forall>i j. i \<le> j \<longrightarrow> hybrid_clock e i \<le> hybrid_clock e j"
    and "stop (check_duration a (clock0 e) (hybrid_clock e n) (s\<lparr>stop := False\<rparr>))"
    and "n \<le> m"
  shows "stop (check_duration a (clock0 e) (hybrid_clock e m) (s'\<lparr>stop := False\<rparr>)) \<and>
    duration a \<le> hybrid_clock e m - clock0 e \<and>
    stops_at a e m \<and>
    trace (check_duration a (clock0 e) (hybrid_clock e m) s') =
      trace s' @ [Print (MsgStopDuration (hybrid_clock e m - clock0 e) (duration a))]"
proof -
  have "duration a \<le> hybrid_clock e n - clock0 e"
    using assms(2) by (simp add: check_duration_def emit_def Let_def split: if_splits)
  moreover have "hybrid_clock e n \<le> hybrid_clock e m"
    using assms(1,3) by simp
  ultimately have d: "duration a \<le> hybrid_clock e m - clock0 e"
    by simp
  then show ?thesis
    by (simp add: check_duration_def emit_def Let_def stops_at_iff)
qed

theorem duration_monotone_witness:
  "stop (check_duration (demo_args\<lparr>duration := 100\<rparr>)
      (clock0 (demo_env\<lparr>hybrid_clock := (\<lambda>n. 60 * of_int (n + 1))\<rparr>))
      (hybrid_clock (demo_env\<lparr>hybrid_clock := (\<lambda>n. 60 * of_int (n + 1))\<rparr>) 1)
      ((init_ctrl demo_env)\<lparr>stop := False\<rparr>)) \<and>
   (1::int) \<le> 3 \<and>
   stop (check_duration (demo_args\<lparr>duration := 100\<rparr>)
      (clock0 (demo_env\<lparr>hybrid_clock := (\<lambda>n. 60 * of_int (n + 1))\<rparr>))
      (hybrid_clock (demo_env\<lparr>hybrid_clock := (\<lambda>n. 60 * of_int (n + 1))\<rparr>) 3)
      ((init_ctrl demo_env)\<lparr>stop := False\<rparr>)) \<and>
   \<not> stop (check_duration (demo_args\<lparr>duration := 100\<rparr>)
      (clock0 (demo_env\<lparr>hybrid_clock := (\<lambda>n. 60 * of_int (n + 1))\<rparr>))
      (hybrid_clock (demo_env\<lparr>hybrid_clock := (\<lambda>n. 60 * of_int (n + 1))\<rparr>) 0)
      ((init_ctrl demo_env)\<lparr>stop := False\<rparr>))"
proof -
  let ?a = "demo_args\<lparr>duration := 100\<rparr>"
  let ?e = "demo_env\<lparr>hybrid_clock := (\<lambda>n. 60 * of_int (n + 1))\<rparr>"
  have h1: "\<forall>i j. i \<le> j \<longrightarrow> hybrid_clock ?e i \<le> hybrid_clock ?e j"
    by simp
  have h2: "stop (check_duration ?a (clock0 ?e) (hybrid_clock ?e 1) ((init_ctrl demo_env)\<lparr>stop := False\<rparr>))"
    by (simp add: check_duration_def emit_def Let_def demo_args_def demo_env_def)
  have h3: "(1::int) \<le> 3" by simp
  have n0: "\<not> stop (check_duration ?a (clock0 ?e) (hybrid_clock ?e 0) ((init_ctrl demo_env)\<lparr>stop := False\<rparr>))"
    by (simp add: check_duration_def emit_def Let_def demo_args_def demo_env_def)
  show ?thesis
    using duration_monotone[OF h1 h2 h3, of "init_ctrl demo_env"] h2 n0 by simp
qed

subsection \<open>The power directive at the start of a cycle\<close>

lemma chrono_runs_append: "chrono_runs (xs @ ys) = chrono_runs xs @ chrono_runs ys"
  by (induction xs rule: chrono_runs.induct) simp_all

lemma body_chrono: "chrono_runs (trace (cycle_body a e n s)) = chrono_runs (trace s)"
  by (simp add: body_defs chrono_runs_append)

lemma shut_down_chrono: "chrono_runs (trace (shut_down s)) = chrono_runs (trace s)"
  by (simp add: shut_down_def emit_def Let_def chrono_runs_append)

lemma cycles_chrono: "chrono_runs (trace (cycles a e ns s)) = chrono_runs (trace s)"
  by (induction ns arbitrary: s)
     (simp_all add: Let_def emit_def chrono_runs_append body_chrono shut_down_chrono)

lemma finish_chrono: "chrono_runs (trace (finish_stage a e s)) = chrono_runs (trace s)"
  by (simp add: finish_stage_def emit_def Let_def chrono_runs_append
        split: prod.splits option.splits)

lemma main_chrono: "chrono_runs (trace (main a e)) = chrono_runs (trace (loop_entry a e))"
  by (simp add: main_def cycling_def finish_chrono cycles_chrono)

lemma entry_chrono:
  "length (chrono_runs (trace (loop_entry a e))) = (if 0 < condition_time a then 1 else 0)"
  by (simp add: loop_entry_def condition_def init_ctrl_def emit_def Let_def)

text \<open>
  Claim C6. In every run, whatever stops it, each hybrid call is made for a loop value
  \<open>n \<ge> 0\<close>, and its \<open>start_with_cell_off\<close> argument is true exactly when \<open>n = 0\<close> and
  \<open>condition_time \<le> 0\<close>: false in cycle 0 after a conditioning, false in every later
  cycle. The conditioning measurement runs before the loop and nowhere else, once when
  \<open>condition_time > 0\<close> and not at all otherwise.
\<close>

theorem start_with_cell_off_directive:
  "(\<forall>c\<in>set (hybrid_calls (trace (main a e))).
      0 \<le> call_index c \<and>
      call_start_with_cell_off c = (call_index c = 0 \<and> condition_time a \<le> 0)) \<and>
   chrono_runs (trace (main a e)) = chrono_runs (trace (loop_entry a e)) \<and>
   length (chrono_runs (trace (main a e))) = (if condition_time a \<le> 0 then 0 else 1)"
proof -
  have "0 \<le> call_index c \<and>
      call_start_with_cell_off c = (call_index c = 0 \<and> condition_time a \<le> 0)"
    if "c \<in> set (hybrid_calls (trace (main a e)))" for c
  proof -
    from that obtain n where n: "n \<in> set (ran a e [0..max_repeats a - 1])"
      and c: "c = \<lparr>call_index = n,
               call_suffix = (if max_repeats a > 1 then Cycle (file_suffix a) n
                              else Plain (file_suffix a)),
               call_show_plot = False,
               call_start_with_cell_off = (condition_time a \<le> 0 \<and> n \<le> 0),
               call_leave_cell_on = (n \<noteq> max_repeats a - 1)\<rparr>"
      unfolding main_calls cycling_calls by auto
    from n have "0 \<le> n" using ran_subset[of a e "[0..max_repeats a - 1]"] by auto
    then show ?thesis unfolding c by auto
  qed
  then show ?thesis
    by (simp add: main_chrono entry_chrono)
qed

theorem start_with_cell_off_directive_witness:
  "map call_start_with_cell_off (hybrid_calls (trace (main (demo_args\<lparr>max_repeats := 3\<rparr>) demo_env)))
     = [True, False, False] \<and>
   map call_start_with_cell_off
     (hybrid_calls (trace (main (demo_args\<lparr>max_repeats := 3, condition_time := 600\<rparr>) demo_env)))
     = [False, False, False] \<and>
   length (chrono_runs (trace (main (demo_args\<lparr>max_repeats := 3, condition_time := 600\<rparr>) demo_env))) = 1"
proof -
  let ?a = "demo_args\<lparr>max_repeats := 3\<rparr>"
  let ?b = "demo_args\<lparr>max_repeats := 3, condition_time := 600\<rparr>"
  have u: "[0..2::int] = [0, 1, 2]" by (simp add: upto_rec1)
  have q: "\<not> stops_at ?a demo_env n" "\<not> stops_at ?b demo_env n" for n
    by (simp_all add: stops_at_iff demo_args_def demo_env_def)
  have ia: "map call_index (hybrid_calls (trace (main ?a demo_env))) = [0, 1, 2]"
    by (simp add: main_calls map_index_calls u q)
  have ib: "map call_index (hybrid_calls (trace (main ?b demo_env))) = [0, 1, 2]"
    by (simp add: main_calls map_index_calls u q)
  have ca: "condition_time ?a \<le> 0" and cb: "\<not> condition_time ?b \<le> 0"
    by (simp_all add: demo_args_def)
  from ia obtain x0 x1 x2 where xa: "hybrid_calls (trace (main ?a demo_env)) = [x0, x1, x2]"
    "call_index x0 = 0" "call_index x1 = 1" "call_index x2 = 2"
    by (auto simp add: map_eq_Cons_conv)
  from ib obtain y0 y1 y2 where yb: "hybrid_calls (trace (main ?b demo_env)) = [y0, y1, y2]"
    "call_index y0 = 0" "call_index y1 = 1" "call_index y2 = 2"
    by (auto simp add: map_eq_Cons_conv)
  note A = start_with_cell_off_directive[of ?a demo_env]
  note B = start_with_cell_off_directive[of ?b demo_env]
  have 1: "map call_start_with_cell_off (hybrid_calls (trace (main ?a demo_env))) =
      [True, False, False]"
    using A[THEN conjunct1] xa ca by simp
  have 2: "map call_start_with_cell_off (hybrid_calls (trace (main ?b demo_env))) =
      [False, False, False]"
    using B[THEN conjunct1] yb cb by simp
  have 3: "length (chrono_runs (trace (main ?b demo_env))) = 1"
    using B[THEN conjunct2, THEN conjunct2] cb by simp
  from 1 2 3 show ?thesis by simp
qed

subsection \<open>A single repeat\<close>

lemma finish_off: "\<not> voltage_finish a \<Longrightarrow> finish_stage a e s = s"
  by (simp add: finish_stage_def)

lemma finish_pstatic_off: "\<not> voltage_finish a \<Longrightarrow> pstatic_runs (trace (main a e)) = []"
  by (simp add: main_def finish_off cycling_def cycles_pstatic loop_entry_def condition_def
        init_ctrl_def emit_def Let_def)

lemma single_cycle:
  "max_repeats a = 1 \<Longrightarrow>
   cycling a e =
     (if stops_at a e 0 then shut_down (cycle_body a e 0 (loop_entry a e))
      else emit (Print (MsgRest (hybrid_rest_time a))) (cycle_body a e 0 (loop_entry a e)))"
  by (simp add: cycling_def range_py_def upto_rec1 Let_def body_stops_at)

text \<open>
  Claim C7, as the code has it. With \<open>max_repeats = 1\<close>, voltage finish disabled and no
  conditioning, the run makes exactly one hybrid call, with \<open>start_with_cell_off\<close> true
  and \<open>leave_cell_on\<close> false, and the voltage-finish stage does not run: nothing follows
  the loop. After the call the script itself sends cell-off and close only if one of the
  stop checks fires in that cycle and the session is still open; in every other case it
  sends nothing to the session and prints the rest message.
\<close>

theorem single_repeat:
  assumes "max_repeats a = 1" and "\<not> voltage_finish a" and "condition_time a \<le> 0"
  shows "hybrid_calls (trace (main a e)) =
      [\<lparr>call_index = 0, call_suffix = Plain (file_suffix a), call_show_plot = False,
        call_start_with_cell_off = True, call_leave_cell_on = False\<rparr>] \<and>
    pstatic_runs (trace (main a e)) = [] \<and>
    pstat_commands (trace (main a e)) =
      (if stops_at a e 0 \<and> is_open (hybrid_pstat e 0) then [SetCellOff, Close] else []) \<and>
    trace (main a e) =
      trace (cycle_body a e 0 (loop_entry a e)) @
      (if stops_at a e 0 then (if is_open (hybrid_pstat e 0) then [SetCellOff, Close] else [])
       else [Print (MsgRest (hybrid_rest_time a))])"
proof -
  have m: "main a e = cycling a e"
    using assms(2) by (simp add: main_def finish_off)
  have r: "ran a e [0..max_repeats a - 1] = [0]"
    using assms(1) by (simp add: upto_rec1)
  have calls: "hybrid_calls (trace (main a e)) =
      [\<lparr>call_index = 0, call_suffix = Plain (file_suffix a), call_show_plot = False,
        call_start_with_cell_off = True, call_leave_cell_on = False\<rparr>]"
    using assms(1,3) by (simp add: main_calls cycling_calls r)
  have tr: "trace (main a e) =
      trace (cycle_body a e 0 (loop_entry a e)) @
      (if stops_at a e 0 then (if is_open (hybrid_pstat e 0) then [SetCellOff, Close] else [])
       else [Print (MsgRest (hybrid_rest_time a))])"
    unfolding m
    by (simp add: single_cycle[OF assms(1)] shut_down_def emit_def Let_def body_pstat)
  have cmd: "pstat_commands (trace (main a e)) =
      (if stops_at a e 0 \<and> is_open (hybrid_pstat e 0) then [SetCellOff, Close] else [])"
    unfolding tr by (simp add: pstat_commands_append body_commands entry_commands)
  show ?thesis
    using calls finish_pstatic_off[OF assms(2)] cmd tr by (intro conjI)
qed

theorem single_repeat_witness:
  "max_repeats demo_args = 1 \<and> \<not> voltage_finish demo_args \<and> condition_time demo_args \<le> 0 \<and>
   map call_start_with_cell_off (hybrid_calls (trace (main demo_args demo_env))) = [True] \<and>
   map call_leave_cell_on (hybrid_calls (trace (main demo_args demo_env))) = [False] \<and>
   pstatic_runs (trace (main demo_args demo_env)) = [] \<and>
   pstat_commands (trace (main demo_args demo_env)) = [] \<and>
   pstat_commands (trace (main (demo_args\<lparr>duration := 30\<rparr>) demo_env)) = [SetCellOff, Close]"
proof -
  have h: "max_repeats demo_args = 1" "\<not> voltage_finish demo_args" "condition_time demo_args \<le> 0"
    by (simp_all add: demo_args_def)
  have h': "max_repeats (demo_args\<lparr>duration := 30\<rparr>) = 1"
    "\<not> voltage_finish (demo_args\<lparr>duration := 30\<rparr>)"
    "condition_time (demo_args\<lparr>duration := 30\<rparr>) \<le> 0"
    by (simp_all add: demo_args_def)
  have q: "\<not> stops_at demo_args demo_env 0" "stops_at (demo_args\<lparr>duration := 30\<rparr>) demo_env 0"
    "is_open (hybrid_pstat demo_env 0)"
    by (simp_all add: stops_at_iff demo_args_def demo_env_def)
  note A = single_repeat[OF h, of demo_env]
  note B = single_repeat[OF h', of demo_env]
  have 1: "map call_start_with_cell_off (hybrid_calls (trace (main demo_args demo_env))) = [True]"
    "map call_leave_cell_on (hybrid_calls (trace (main demo_args demo_env))) = [False]"
    using A[THEN conjunct1] by simp_all
  have 2: "pstatic_runs (trace (main demo_args demo_env)) = []"
    using A[THEN conjunct2, THEN conjunct1] .
  have 3: "pstat_commands (trace (main demo_args demo_env)) = []"
    using A[THEN conjunct2, THEN conjunct2, THEN conjunct1] q by simp
  have 4: "pstat_commands (trace (main (demo_args\<lparr>duration := 30\<rparr>) demo_env)) =
      [SetCellOff, Close]"
    using B[THEN conjunct2, THEN conjunct2, THEN conjunct1] q by simp
  from h 1 2 3 4 show ?thesis by simp
qed

text \<open>
  With the default limits and duration no check fires after the single cycle, and the
  script never closes the session.
\<close>

theorem single_repeat_no_close_counterexample:
  "max_repeats demo_args = 1 \<and> \<not> voltage_finish demo_args \<and> condition_time demo_args \<le> 0 \<and>
   length (hybrid_calls (trace (main demo_args demo_env))) = 1 \<and>
   Close \<notin> set (trace (main demo_args demo_env)) \<and>
   pstat_commands (trace (main demo_args demo_env)) = []"
  by (simp add: main_def finish_stage_def cycling_def range_py_def upto_rec1 loop_entry_def
        condition_def init_ctrl_def body_defs shut_down_def demo_args_def demo_env_def i_sign_def)

subsection \<open>Zero current\<close>

lemma zero_sign_check: "py_le (py_mul x 0) (py_mul v 0) = (is_finite x \<and> is_finite v)"
  by (cases x; cases v) simp_all

lemma zero_sign_stops:
  "hybrid_i_init a = 0 \<Longrightarrow> voltage_finish a \<Longrightarrow> is_finite (finish_v a) \<Longrightarrow>
   is_finite (meas_v_end (hybrid_seq e n)) \<Longrightarrow> stops_at a e n"
  by (simp add: stops_at_iff zero_sign_check i_sign_def)

text \<open>
  Claim C9, as the code has it. With an initial current of exactly zero the sign is 0.
  The cutoff computation then takes its second branch, the one of the negative sign,
  and yields the band \<open>(0, 0)\<close> when both magnitudes are finite. The voltage-finish
  comparison is \<open>end_voltage * 0 \<ge> finish_v * 0\<close>: with voltage finish enabled the check
  fires exactly when the end voltage and the finish voltage are both finite, for an
  infinity or NaN times 0 is NaN and the comparison is false. With finite finish
  voltage and a finite end voltage in cycle 0, a run with at least one configured
  repeat makes the hybrid call of cycle 0 only and leaves the loop through the stop
  branch.
\<close>

theorem zero_current:
  assumes "hybrid_i_init a = 0"
  shows "i_sign a = 0 \<and>
    finish_cutoffs a =
      (py_mul (py_abs (finish_i_max a)) (i_sign a),
       py_mul (py_abs (finish_i_thresh a)) (i_sign a)) \<and>
    (is_finite (finish_i_thresh a) \<and> is_finite (finish_i_max a) \<longrightarrow>
       finish_cutoffs a = (Finite 0, Finite 0)) \<and>
    (voltage_finish a \<longrightarrow>
       stop (check_finish a (s\<lparr>stop := False\<rparr>)) =
         (is_finite (finish_v a) \<and> is_finite (meas_v_end (seq s))) \<and>
       (is_finite (finish_v a) \<and> is_finite (meas_v_end (hybrid_seq e n)) \<longrightarrow>
          stops_at a e n) \<and>
       (1 \<le> max_repeats a \<and> is_finite (finish_v a) \<and>
        is_finite (meas_v_end (hybrid_seq e 0)) \<longrightarrow>
          map call_index (hybrid_calls (trace (main a e))) = [0] \<and>
          cycling a e = shut_down (cycle_body a e 0 (loop_entry a e))))"
proof -
  have z: "i_sign a = 0" using assms by (simp add: i_sign_def)
  have c: "finish_cutoffs a =
      (py_mul (py_abs (finish_i_max a)) (i_sign a),
       py_mul (py_abs (finish_i_thresh a)) (i_sign a))"
    by (simp add: finish_cutoffs_def z)
  have c0: "finish_cutoffs a = (Finite 0, Finite 0)"
    if "is_finite (finish_i_thresh a) \<and> is_finite (finish_i_max a)"
    using that unfolding c z
    by (cases "finish_i_thresh a"; cases "finish_i_max a") simp_all
  have l: "map call_index (hybrid_calls (trace (main a e))) = [0] \<and>
          cycling a e = shut_down (cycle_body a e 0 (loop_entry a e))"
    if vf: "voltage_finish a"
      and rep: "1 \<le> max_repeats a \<and> is_finite (finish_v a) \<and>
        is_finite (meas_v_end (hybrid_seq e 0))"
  proof -
    have st: "stops_at a e 0" using assms vf rep by (simp add: zero_sign_stops)
    have u: "[0..max_repeats a - 1] = 0 # [1..max_repeats a - 1]"
      using rep by (simp add: upto_rec1[of 0])
    have "ran a e [0..max_repeats a - 1] = [0]"
      unfolding u using st by simp
    then have 1: "map call_index (hybrid_calls (trace (main a e))) = [0]"
      by (simp add: main_calls map_index_calls)
    have 2: "cycling a e = shut_down (cycle_body a e 0 (loop_entry a e))"
      unfolding cycling_def range_py_def u using st by (rule cycles_stop_head)
    from 1 2 show ?thesis by simp
  qed
  have f: "stop (check_finish a (s\<lparr>stop := False\<rparr>)) =
         (is_finite (finish_v a) \<and> is_finite (meas_v_end (seq s)))"
    if "voltage_finish a"
    using that by (simp add: check_finish_def z zero_sign_check emit_def)
  have g: "stops_at a e n"
    if "voltage_finish a" "is_finite (finish_v a) \<and> is_finite (meas_v_end (hybrid_seq e n))"
    using assms that by (simp add: zero_sign_stops)
  show ?thesis
    using z c c0 l f g by blast
qed

theorem zero_current_witness:
  "hybrid_i_init (demo_args\<lparr>hybrid_i_init := 0, voltage_finish := True, max_repeats := 3\<rparr>) = 0 \<and>
   finish_cutoffs (demo_args\<lparr>hybrid_i_init := 0, voltage_finish := True, max_repeats := 3\<rparr>) =
     (Finite 0, Finite 0) \<and>
   stops_at (demo_args\<lparr>hybrid_i_init := 0, voltage_finish := True, max_repeats := 3\<rparr>) demo_env 0 \<and>
   map call_index (hybrid_calls (trace
     (main (demo_args\<lparr>hybrid_i_init := 0, voltage_finish := True, max_repeats := 3\<rparr>) demo_env))) = [0]"
proof -
  let ?a = "demo_args\<lparr>hybrid_i_init := 0, voltage_finish := True, max_repeats := 3\<rparr>"
  have h: "hybrid_i_init ?a = 0" by simp
  have v: "voltage_finish ?a" "1 \<le> max_repeats ?a" by simp_all
  have fin: "is_finite (finish_i_thresh ?a)" "is_finite (finish_i_max ?a)"
    "is_finite (finish_v ?a)" "is_finite (meas_v_end (hybrid_seq demo_env 0))"
    by (simp_all add: demo_args_def demo_env_def)
  note Z = zero_current[OF h, of "init_ctrl demo_env" demo_env 0]
  have 1: "finish_cutoffs ?a = (Finite 0, Finite 0)"
    using Z[THEN conjunct2, THEN conjunct2, THEN conjunct1] fin by blast
  have 2: "stops_at ?a demo_env 0"
    "map call_index (hybrid_calls (trace (main ?a demo_env))) = [0]"
    using Z[THEN conjunct2, THEN conjunct2, THEN conjunct2] v fin by blast+
  from h 1 2 show ?thesis by (intro conjI)
qed

text \<open>
  With the finish voltage given as \<open>inf\<close> the comparison is \<open>0 \<ge> nan\<close>: the check does
  not fire, no other check fires, and the run of two configured repeats makes both calls.
\<close>

theorem zero_current_infinite_finish_counterexample:
  "hybrid_i_init (demo_args\<lparr>hybrid_i_init := 0, voltage_finish := True, finish_v := PosInf,
      max_repeats := 2\<rparr>) = 0 \<and>
   voltage_finish (demo_args\<lparr>hybrid_i_init := 0, voltage_finish := True, finish_v := PosInf,
      max_repeats := 2\<rparr>) \<and>
   \<not> stop (cycle_body (demo_args\<lparr>hybrid_i_init := 0, voltage_finish := True, finish_v := PosInf,
      max_repeats := 2\<rparr>) demo_env 0 (loop_entry (demo_args\<lparr>hybrid_i_init := 0,
      voltage_finish := True, finish_v := PosInf, max_repeats := 2\<rparr>) demo_env)) \<and>
   map call_index (hybrid_calls (trace (main (demo_args\<lparr>hybrid_i_init := 0,
      voltage_finish := True, finish_v := PosInf, max_repeats := 2\<rparr>) demo_env))) = [0, 1]"
  by (simp add: main_def finish_stage_def finish_cutoffs_def cycling_def range_py_def upto_rec1
        loop_entry_def condition_def init_ctrl_def body_defs shut_down_def demo_args_def
        demo_env_def i_sign_def)

subsection \<open>No repeats\<close>

lemma entry_stop_messages: "stop_messages (trace (loop_entry a e)) = []"
  by (simp add: loop_entry_def condition_def init_ctrl_def emit_def Let_def)

lemma entry_raised: "raised (loop_entry a e) = None"
  by (simp add: loop_entry_def condition_def init_ctrl_def emit_def Let_def)

lemma py_sleep_returns: "0 \<le> r \<Longrightarrow> r \<le> limit \<Longrightarrow> py_sleep limit (Finite r) = None"
  by simp

lemma py_sleep_raises: "x = NaN \<or> py_lt x (Finite 0) \<Longrightarrow> py_sleep limit x \<noteq> None"
  by (cases x) auto

lemma finish_returns:
  "voltage_finish a \<Longrightarrow> py_sleep (sleep_max e) (finish_rest_time a) = None \<Longrightarrow>
   trace (finish_stage a e s) =
     trace s @
     [Print (MsgFinishRest (finish_rest_time a)), Sleep (finish_rest_time a),
      Print (MsgCutoffs (fst (finish_cutoffs a)) (snd (finish_cutoffs a))),
      PstaticRun \<lparr>pstatic_v = finish_v a, pstatic_duration = finish_duration a,
        pstatic_t_sample = finish_t_sample a,
        pstatic_i_min = fst (finish_cutoffs a), pstatic_i_max = snd (finish_cutoffs a),
        pstatic_result_file = (data_path a, ''PSTATIC-FINISH_'' @ file_suffix a @ ''.DTA''),
        pstatic_kst_file = kst_file a\<rparr>] \<and>
   raised (finish_stage a e s) = raised s"
  by (simp add: finish_stage_def emit_def Let_def split: prod.splits)

lemma finish_raises:
  "voltage_finish a \<Longrightarrow> py_sleep (sleep_max e) (finish_rest_time a) = Some err \<Longrightarrow>
   trace (finish_stage a e s) = trace s @ [Print (MsgFinishRest (finish_rest_time a))] \<and>
   raised (finish_stage a e s) = Some err"
  by (simp add: finish_stage_def emit_def Let_def)

text \<open>
  Claim C10, as the code has it. With \<open>max_repeats \<le> 0\<close> the loop body never runs: the
  state at the end of the loop is the state at its entry, so the run has no hybrid
  call, no stop message and no cell-off or close command. The voltage-finish stage
  still starts whenever it is enabled, with the rest message and the call of
  \<open>time.sleep\<close>. When the rest time is a number from 0 to the longest sleep the call
  returns, and the cutoff message and the potentiostatic run with the computed band
  follow. When \<open>time.sleep\<close> raises, as it does for a negative rest time, for NaN and
  for a length beyond the longest sleep, the run ends there: after the rest message,
  without cutoffs and without a potentiostatic run. When the stage is disabled nothing
  follows the loop.
\<close>

theorem no_repeats:
  assumes "max_repeats a \<le> 0"
  shows "cycling a e = loop_entry a e \<and>
    hybrid_calls (trace (main a e)) = [] \<and>
    stop_messages (trace (main a e)) = [] \<and>
    pstat_commands (trace (main a e)) = [] \<and>
    (voltage_finish a \<and> finish_rest_time a = Finite r \<and> 0 \<le> r \<and> r \<le> sleep_max e \<longrightarrow>
       trace (main a e) =
         trace (loop_entry a e) @
         [Print (MsgFinishRest (finish_rest_time a)), Sleep (finish_rest_time a),
          Print (MsgCutoffs (fst (finish_cutoffs a)) (snd (finish_cutoffs a))),
          PstaticRun \<lparr>pstatic_v = finish_v a, pstatic_duration = finish_duration a,
            pstatic_t_sample = finish_t_sample a,
            pstatic_i_min = fst (finish_cutoffs a), pstatic_i_max = snd (finish_cutoffs a),
            pstatic_result_file = (data_path a, ''PSTATIC-FINISH_'' @ file_suffix a @ ''.DTA''),
            pstatic_kst_file = kst_file a\<rparr>] \<and>
       raised (main a e) = None) \<and>
    (voltage_finish a \<and> py_sleep (sleep_max e) (finish_rest_time a) = Some err \<longrightarrow>
       trace (main a e) =
         trace (loop_entry a e) @ [Print (MsgFinishRest (finish_rest_time a))] \<and>
       pstatic_runs (trace (main a e)) = [] \<and>
       raised (main a e) = Some err) \<and>
    (voltage_finish a \<and>
      (finish_rest_time a = NaN \<or> py_lt (finish_rest_time a) (Finite 0)) \<longrightarrow>
       pstatic_runs (trace (main a e)) = [] \<and> raised (main a e) \<noteq> None) \<and>
    (\<not> voltage_finish a \<longrightarrow> main a e = loop_entry a e)"
proof -
  have "range_py (max_repeats a) = []"
    using assms by (simp add: range_py_def)
  then have c: "cycling a e = loop_entry a e"
    by (simp add: cycling_def)
  have m: "main a e = finish_stage a e (loop_entry a e)"
    by (simp add: main_def c)
  have ep: "pstatic_runs (trace (loop_entry a e)) = []"
    by (simp add: loop_entry_def condition_def init_ctrl_def emit_def Let_def)
  have ok: "trace (main a e) =
         trace (loop_entry a e) @
         [Print (MsgFinishRest (finish_rest_time a)), Sleep (finish_rest_time a),
          Print (MsgCutoffs (fst (finish_cutoffs a)) (snd (finish_cutoffs a))),
          PstaticRun \<lparr>pstatic_v = finish_v a, pstatic_duration = finish_duration a,
            pstatic_t_sample = finish_t_sample a,
            pstatic_i_min = fst (finish_cutoffs a), pstatic_i_max = snd (finish_cutoffs a),
            pstatic_result_file = (data_path a, ''PSTATIC-FINISH_'' @ file_suffix a @ ''.DTA''),
            pstatic_kst_file = kst_file a\<rparr>] \<and>
       raised (main a e) = None"
    if "voltage_finish a \<and> finish_rest_time a = Finite r \<and> 0 \<le> r \<and> r \<le> sleep_max e"
  proof -
    from that have "py_sleep (sleep_max e) (finish_rest_time a) = None"
      by (simp add: py_sleep_returns)
    with that show ?thesis
      unfolding m by (simp add: finish_returns entry_raised)
  qed
  have bad: "trace (main a e) =
         trace (loop_entry a e) @ [Print (MsgFinishRest (finish_rest_time a))] \<and>
       pstatic_runs (trace (main a e)) = [] \<and>
       raised (main a e) = Some err"
    if "voltage_finish a \<and> py_sleep (sleep_max e) (finish_rest_time a) = Some err" for err
    using that unfolding m by (simp add: finish_raises pstatic_runs_append ep)
  have neg: "pstatic_runs (trace (main a e)) = [] \<and> raised (main a e) \<noteq> None"
    if "voltage_finish a \<and>
      (finish_rest_time a = NaN \<or> py_lt (finish_rest_time a) (Finite 0))"
  proof -
    from that have "py_sleep (sleep_max e) (finish_rest_time a) \<noteq> None"
      by (intro py_sleep_raises) simp
    then obtain x where "py_sleep (sleep_max e) (finish_rest_time a) = Some x"
      by blast
    with that have "pstatic_runs (trace (main a e)) = [] \<and> raised (main a e) = Some x"
      using bad[of x] by blast
    then show ?thesis by simp
  qed
  have off: "main a e = loop_entry a e" if "\<not> voltage_finish a"
    using that by (simp add: m finish_off)
  have basics: "hybrid_calls (trace (main a e)) = []" "stop_messages (trace (main a e)) = []"
    "pstat_commands (trace (main a e)) = []"
    by (simp_all add: m finish_calls finish_stop_messages finish_commands entry_calls
          entry_stop_messages entry_commands)
  show ?thesis
    using c basics ok bad neg off by blast
qed

theorem no_repeats_witness:
  "max_repeats (demo_args\<lparr>max_repeats := 0, voltage_finish := True\<rparr>) \<le> 0 \<and>
   hybrid_calls (trace (main (demo_args\<lparr>max_repeats := 0, voltage_finish := True\<rparr>) demo_env)) = [] \<and>
   pstat_commands (trace (main (demo_args\<lparr>max_repeats := 0, voltage_finish := True\<rparr>) demo_env)) = [] \<and>
   map pstatic_i_min
     (pstatic_runs (trace (main (demo_args\<lparr>max_repeats := 0, voltage_finish := True\<rparr>) demo_env)))
     = [Finite 0.005] \<and>
   length (trace (main (demo_args\<lparr>max_repeats := - 2, voltage_finish := True\<rparr>) demo_env)) = 4 \<and>
   raised (main (demo_args\<lparr>max_repeats := 0, voltage_finish := True,
     finish_rest_time := NaN\<rparr>) demo_env) = Some ValueError"
proof -
  let ?a = "demo_args\<lparr>max_repeats := 0, voltage_finish := True\<rparr>"
  let ?b = "demo_args\<lparr>max_repeats := - 2, voltage_finish := True\<rparr>"
  let ?c = "demo_args\<lparr>max_repeats := 0, voltage_finish := True, finish_rest_time := NaN\<rparr>"
  have h: "max_repeats ?a \<le> 0" and h': "max_repeats ?b \<le> 0" and h'': "max_repeats ?c \<le> 0"
    by simp_all
  have v: "voltage_finish ?a \<and> finish_rest_time ?a = Finite 2 \<and> (0::real) \<le> 2 \<and>
      2 \<le> sleep_max demo_env"
    "voltage_finish ?b \<and> finish_rest_time ?b = Finite 2 \<and> (0::real) \<le> 2 \<and>
      2 \<le> sleep_max demo_env"
    "voltage_finish ?c \<and> py_sleep (sleep_max demo_env) (finish_rest_time ?c) = Some ValueError"
    by (simp_all add: demo_args_def demo_env_def)
  have e: "trace (loop_entry ?a demo_env) = []" "trace (loop_entry ?b demo_env) = []"
    by (simp_all add: loop_entry_def condition_def init_ctrl_def demo_args_def)
  have k: "fst (finish_cutoffs ?a) = Finite 0.005"
    by (simp add: finish_cutoffs_def i_sign_def demo_args_def)
  note A = no_repeats[OF h, of demo_env 2]
  note B = no_repeats[OF h', of demo_env 2]
  note C = no_repeats[OF h'', of demo_env _ ValueError]
  have 1: "hybrid_calls (trace (main ?a demo_env)) = []"
    "pstat_commands (trace (main ?a demo_env)) = []"
    using A[THEN conjunct2, THEN conjunct1]
      A[THEN conjunct2, THEN conjunct2, THEN conjunct2, THEN conjunct1] .
  have ta: "trace (main ?a demo_env) = trace (loop_entry ?a demo_env) @
         [Print (MsgFinishRest (finish_rest_time ?a)), Sleep (finish_rest_time ?a),
          Print (MsgCutoffs (fst (finish_cutoffs ?a)) (snd (finish_cutoffs ?a))),
          PstaticRun \<lparr>pstatic_v = finish_v ?a, pstatic_duration = finish_duration ?a,
            pstatic_t_sample = finish_t_sample ?a,
            pstatic_i_min = fst (finish_cutoffs ?a), pstatic_i_max = snd (finish_cutoffs ?a),
            pstatic_result_file = (data_path ?a, ''PSTATIC-FINISH_'' @ file_suffix ?a @ ''.DTA''),
            pstatic_kst_file = kst_file ?a\<rparr>]"
    using A[THEN conjunct2, THEN conjunct2, THEN conjunct2, THEN conjunct2, THEN conjunct1,
        THEN mp, OF v(1), THEN conjunct1] .
  have 2: "map pstatic_i_min (pstatic_runs (trace (main ?a demo_env))) = [Finite 0.005]"
    unfolding ta e using k by simp
  have tb: "trace (main ?b demo_env) = trace (loop_entry ?b demo_env) @
         [Print (MsgFinishRest (finish_rest_time ?b)), Sleep (finish_rest_time ?b),
          Print (MsgCutoffs (fst (finish_cutoffs ?b)) (snd (finish_cutoffs ?b))),
          PstaticRun \<lparr>pstatic_v = finish_v ?b, pstatic_duration = finish_duration ?b,
            pstatic_t_sample = finish_t_sample ?b,
            pstatic_i_min = fst (finish_cutoffs ?b), pstatic_i_max = snd (finish_cutoffs ?b),
            pstatic_result_file = (data_path ?b, ''PSTATIC-FINISH_'' @ file_suffix ?b @ ''.DTA''),
            pstatic_kst_file = kst_file ?b\<rparr>]"
    using B[THEN conjunct2, THEN conjunct2, THEN conjunct2, THEN conjunct2, THEN conjunct1,
        THEN mp, OF v(2), THEN conjunct1] .
  have 3: "length (trace (main ?b demo_env)) = 4"
    unfolding tb e by simp
  have 4: "raised (main ?c demo_env) = Some ValueError"
    using C[THEN conjunct2, THEN conjunct2, THEN conjunct2, THEN conjunct2, THEN conjunct2,
        THEN conjunct1, THEN mp, OF v(3), THEN conjunct2, THEN conjunct2] .
  from h 1 2 3 4 show ?thesis by (intro conjI)
qed

text \<open>
  With a rest time of \<open>-1\<close> second the stage is enabled and \<open>time.sleep\<close> raises
  \<open>ValueError\<close>: the potentiostatic run never happens.
\<close>

theorem no_repeats_negative_rest_counterexample:
  "max_repeats (demo_args\<lparr>max_repeats := 0, voltage_finish := True,
      finish_rest_time := Finite (- 1)\<rparr>) \<le> 0 \<and>
   voltage_finish (demo_args\<lparr>max_repeats := 0, voltage_finish := True,
      finish_rest_time := Finite (- 1)\<rparr>) \<and>
   pstatic_runs (trace (main (demo_args\<lparr>max_repeats := 0, voltage_finish := True,
      finish_rest_time := Finite (- 1)\<rparr>) demo_env)) = [] \<and>
   trace (main (demo_args\<lparr>max_repeats := 0, voltage_finish := True,
      finish_rest_time := Finite (- 1)\<rparr>) demo_env) = [Print (MsgFinishRest (Finite (- 1)))] \<and>
   raised (main (demo_args\<lparr>max_repeats := 0, voltage_finish := True,
      finish_rest_time := Finite (- 1)\<rparr>) demo_env) = Some ValueError"
  by (simp add: main_def finish_stage_def cycling_def range_py_def loop_entry_def
        condition_def init_ctrl_def emit_def demo_args_def demo_env_def)

end
